theory Spec2Isabelle
  imports Main "HOL-Library.AList" "HOL-Library.Sublist"
begin

section \<open>LightCurve: the connection and streaming resource manager\<close>

text \<open>
  A shallow embedding of the Electron main process of LightCurve (the IPC handlers of
  \<^verbatim>\<open>electron/main.ts\<close>) and of the messaging wrapper \<^verbatim>\<open>services/pulsarClient.ts\<close>.

  The main process is a single-threaded event loop running cooperative tasks. An
  \<^verbatim>\<open>async\<close> function runs without interruption up to its next \<^verbatim>\<open>await\<close>; there it
  suspends until the awaited promise settles. The embedding follows this literally:
  every handler is cut at its \<^verbatim>\<open>await\<close>s, the program point where a task is suspended
  is a value of a datatype, and one event of the event loop (an IPC call arriving, a
  native promise settling, a timer firing) runs one uninterrupted segment of code.
  What the native library answers is not code of this repository: it is the payload of
  the event, so every theorem quantifies over all native outcomes and all interleavings.
\<close>

subsection \<open>Generated identifiers\<close>

text \<open>
  Identifiers are template literals such as \<^verbatim>\<open>`producer_${++producerIdCounter}`\<close>.
  The counters are modelled as natural numbers (the source's doubles count exactly up
  to \<open>2^53\<close>); \<open>string_of_nat\<close> is the decimal rendering of a number and
  \<open>nat_of_string\<close> reads it back.
\<close>

definition digit_char :: "nat \<Rightarrow> char" where
  "digit_char d =
     (if d = 0 then CHR ''0'' else if d = 1 then CHR ''1'' else if d = 2 then CHR ''2''
      else if d = 3 then CHR ''3'' else if d = 4 then CHR ''4'' else if d = 5 then CHR ''5''
      else if d = 6 then CHR ''6'' else if d = 7 then CHR ''7'' else if d = 8 then CHR ''8''
      else CHR ''9'')"

fun string_of_nat :: "nat \<Rightarrow> string" where
  "string_of_nat n =
     (if n < 10 then [digit_char n]
      else string_of_nat (n div 10) @ [digit_char (n mod 10)])"

declare string_of_nat.simps [simp del]

definition nat_of_string :: "string \<Rightarrow> nat" where
  "nat_of_string cs = foldl (\<lambda>acc c. 10 * acc + (of_char c - 48)) 0 cs"

definition producer_id :: "nat \<Rightarrow> string" where
  "producer_id n = ''producer_'' @ string_of_nat n"

definition consumer_id :: "nat \<Rightarrow> string" where
  "consumer_id n = ''consumer_'' @ string_of_nat n"

definition streaming_consumer_id :: "nat \<Rightarrow> string" where
  "streaming_consumer_id n = ''streaming_consumer_'' @ string_of_nat n"

definition reader_id :: "nat \<Rightarrow> string" where
  "reader_id n = ''reader_'' @ string_of_nat n"

subsection \<open>Promises and the response envelope\<close>

text \<open>
  A native promise settles by resolving with a value or rejecting with an error; the
  handlers only ever read the error's message
  (\<^verbatim>\<open>err instanceof Error ? err.message : String(err)\<close>).
\<close>

datatype 'a settled = Resolved 'a | Rejected string

text \<open>\<^verbatim>\<open>IPCResponse<T>\<close> is \<^verbatim>\<open>{ success: true, data }\<close> or \<^verbatim>\<open>{ success: false, error }\<close>;
  the constructors are the source's helper functions \<^verbatim>\<open>success\<close> and \<^verbatim>\<open>error\<close>.\<close>

datatype 'a IPCResponse = success 'a | error string

subsection \<open>Messages\<close>

text \<open>
  \<^verbatim>\<open>BrowsedMessage\<close> is the wire shape pushed to the renderer; \<^verbatim>\<open>PulsarMessage\<close>
  (pulsarClient.ts) has the same fields and \<^verbatim>\<open>redeliveryCount\<close>. Buffers are modelled
  by the string they decode to.
\<close>

record BrowsedMessage =
  messageId :: string
  data :: string
  properties :: "(string \<times> string) list"
  publishTimestamp :: nat
  eventTimestamp :: nat
  partitionKey :: "string option"
  topicName :: string

record PulsarMessage = BrowsedMessage +
  redeliveryCount :: nat

text \<open>A native \<^verbatim>\<open>Pulsar.Message\<close>, given by what its getters return.\<close>

record NativeMessage =
  getData :: string
  getMessageId :: string
  getProperties :: "(string \<times> string) list option"
  getPublishTimestamp :: nat
  getEventTimestamp :: nat
  getRedeliveryCount :: nat
  getPartitionKey :: string
  getTopicName :: string

text \<open>\<^verbatim>\<open>PulsarConsumer.convertMessage\<close>: an empty partition key is falsy and becomes
  \<^verbatim>\<open>undefined\<close>.\<close>

definition convertMessage :: "NativeMessage \<Rightarrow> PulsarMessage" where
  "convertMessage msg =
     \<lparr> messageId = getMessageId msg,
       data = getData msg,
       properties = (case getProperties msg of None \<Rightarrow> [] | Some ps \<Rightarrow> ps),
       publishTimestamp = getPublishTimestamp msg,
       eventTimestamp = getEventTimestamp msg,
       partitionKey = (if getPartitionKey msg = [] then None else Some (getPartitionKey msg)),
       topicName = getTopicName msg,
       redeliveryCount = getRedeliveryCount msg \<rparr>"

text \<open>\<^verbatim>\<open>PulsarReader.convertMessage\<close> passes the partition key through.\<close>

definition reader_convertMessage :: "NativeMessage \<Rightarrow> PulsarMessage" where
  "reader_convertMessage msg =
     \<lparr> messageId = getMessageId msg,
       data = getData msg,
       properties = (case getProperties msg of None \<Rightarrow> [] | Some ps \<Rightarrow> ps),
       publishTimestamp = getPublishTimestamp msg,
       eventTimestamp = getEventTimestamp msg,
       partitionKey = Some (getPartitionKey msg),
       topicName = getTopicName msg,
       redeliveryCount = getRedeliveryCount msg \<rparr>"

text \<open>
  \<^verbatim>\<open>PulsarConsumer.receive_timeout\<close> and \<^verbatim>\<open>PulsarReader.readNext_timeout\<close>: the argument
  is how the native \<^verbatim>\<open>receive(timeoutMs)\<close> (\<^verbatim>\<open>readNext(timeoutMs)\<close>) settled. The
  \<^verbatim>\<open>catch\<close> has no condition: every rejection becomes \<^verbatim>\<open>null\<close>.
\<close>

definition receive_timeout :: "NativeMessage settled \<Rightarrow> PulsarMessage option" where
  "receive_timeout outcome =
     (case outcome of
        Resolved msg \<Rightarrow> Some (convertMessage msg)
      | Rejected _ \<Rightarrow> None)"

definition readNext_timeout :: "NativeMessage settled \<Rightarrow> PulsarMessage option" where
  "readNext_timeout outcome =
     (case outcome of
        Resolved msg \<Rightarrow> Some (reader_convertMessage msg)
      | Rejected _ \<Rightarrow> None)"

text \<open>The conversion to the wire shape in \<^verbatim>\<open>startConsumerLoop\<close>.\<close>

definition browsedMsg :: "PulsarMessage \<Rightarrow> BrowsedMessage" where
  "browsedMsg msg =
     \<lparr> messageId = messageId msg,
       data = data msg,
       properties = properties msg,
       publishTimestamp = publishTimestamp msg,
       eventTimestamp = eventTimestamp msg,
       partitionKey = partitionKey msg,
       topicName = topicName msg \<rparr>"

subsection \<open>What the main process does to the outside world\<close>

text \<open>
  Native objects (and the wrapper around each) are identified by a handle. An
  observation is one call into the native library, Electron or the console, or the value
  a \<^verbatim>\<open>receive_timeout\<close> returned to the receive loop; the trace of the state lists them in
  program order together with the task that made them.
\<close>

type_synonym handle = nat

datatype observation =
    Receive handle nat                        \<comment> \<open>\<^verbatim>\<open>consumer.receive_timeout(ms)\<close>: native receive issued\<close>
  | ReceiveReturned "PulsarMessage option"    \<comment> \<open>what \<^verbatim>\<open>receive_timeout\<close> returned\<close>
  | WebContentsSend string BrowsedMessage     \<comment> \<open>\<^verbatim>\<open>mainWindow.webContents.send('messages:received', {consumerId, message})\<close>\<close>
  | Acknowledge handle PulsarMessage          \<comment> \<open>\<^verbatim>\<open>consumer.acknowledge(msg)\<close>\<close>
  | SetTimeout nat                            \<comment> \<open>\<^verbatim>\<open>setTimeout(resolve, ms)\<close>\<close>
  | CreateProducer nat string
  | Subscribe nat string string nat
  | CreateReader nat string
  | CloseProducer handle
  | CloseConsumer handle
  | CloseReader handle
  | CloseClient nat
  | ConsoleLog string
  | ConsoleError string

datatype actor = ReceiveLoop nat | Handler nat | BeforeQuit

subsection \<open>The receive loop of a streaming consumer\<close>

text \<open>
  The points at which \<^verbatim>\<open>startConsumerLoop\<close> can be suspended: in the
  \<^verbatim>\<open>receive_timeout(1000)\<close>, in the 100 ms sleep of the paused branch, in
  \<^verbatim>\<open>acknowledge(msg)\<close>, in the 100 ms sleep of the \<^verbatim>\<open>catch\<close> block; \<open>LoopReturned\<close> is
  the settled promise of a loop that has left its \<^verbatim>\<open>while\<close>.
\<close>

datatype loop_point =
    AwaitReceive
  | AwaitPausePoll
  | AwaitAcknowledge PulsarMessage
  | AwaitBackoff
  | LoopReturned

text \<open>The \<^verbatim>\<open>StreamingConsumer\<close> object. \<open>receiveLoop\<close> is \<^verbatim>\<open>null\<close> or the promise of
  the loop, given by where the loop stands.\<close>

record StreamingConsumer =
  consumerId :: string
  consumer :: handle
  paused :: bool
  stopRequested :: bool
  receiveLoop :: "loop_point option"

text \<open>
  From the \<^verbatim>\<open>while\<close> condition to the next \<^verbatim>\<open>await\<close>: leave the loop when a stop is
  requested, sleep 100 ms when paused, issue a receive bounded by 1000 ms otherwise.
\<close>

definition loop_head :: "StreamingConsumer \<Rightarrow> StreamingConsumer \<times> observation list" where
  "loop_head sc =
     (if stopRequested sc then (sc\<lparr>receiveLoop := Some LoopReturned\<rparr>, [])
      else if paused sc then (sc\<lparr>receiveLoop := Some AwaitPausePoll\<rparr>, [SetTimeout 100])
      else (sc\<lparr>receiveLoop := Some AwaitReceive\<rparr>, [Receive (consumer sc) 1000]))"

datatype loop_event =
    ReceiveSettles "NativeMessage settled"
  | AcknowledgeSettles "unit settled"
  | TimerFires

text \<open>
  One resumption of \<^verbatim>\<open>startConsumerLoop\<close>, from the \<^verbatim>\<open>await\<close> it is suspended in to
  the next one. The first argument is \<^verbatim>\<open>mainWindow !== null\<close>. An event the loop is not
  waiting for does nothing.
\<close>

fun loop_resume ::
  "bool \<Rightarrow> loop_point option \<Rightarrow> loop_event \<Rightarrow> StreamingConsumer \<Rightarrow>
     StreamingConsumer \<times> observation list" where
  "loop_resume window (Some AwaitReceive) (ReceiveSettles outcome) sc =
     (case receive_timeout outcome of
        Some msg \<Rightarrow>
          if window \<and> \<not> stopRequested sc
          then (sc\<lparr>receiveLoop := Some (AwaitAcknowledge msg)\<rparr>,
                [ReceiveReturned (Some msg),
                 WebContentsSend (consumerId sc) (browsedMsg msg),
                 Acknowledge (consumer sc) msg])
          else (fst (loop_head sc), ReceiveReturned (Some msg) # snd (loop_head sc))
      | None \<Rightarrow> (fst (loop_head sc), ReceiveReturned None # snd (loop_head sc)))"
| "loop_resume window (Some AwaitPausePoll) TimerFires sc = loop_head sc"
| "loop_resume window (Some (AwaitAcknowledge msg)) (AcknowledgeSettles (Resolved _)) sc =
     loop_head sc"
| "loop_resume window (Some (AwaitAcknowledge msg)) (AcknowledgeSettles (Rejected _)) sc =
     (if stopRequested sc then (sc\<lparr>receiveLoop := Some LoopReturned\<rparr>, [])
      else (sc\<lparr>receiveLoop := Some AwaitBackoff\<rparr>, [SetTimeout 100]))"
| "loop_resume window (Some AwaitBackoff) TimerFires sc = loop_head sc"
| "loop_resume window _ _ sc = (sc, [])"

definition startConsumerLoop_resume ::
  "bool \<Rightarrow> loop_event \<Rightarrow> StreamingConsumer \<Rightarrow> StreamingConsumer \<times> observation list" where
  "startConsumerLoop_resume window ev sc = loop_resume window (receiveLoop sc) ev sc"

subsection \<open>Cluster configuration and the messaging client\<close>

text \<open>
  \<^verbatim>\<open>ClusterConfig\<close> and \<^verbatim>\<open>ConnectedCluster\<close> are declared in \<^verbatim>\<open>src/shared/types\<close>; the
  fields are those the handlers read and write.
\<close>

datatype AuthConfig = TokenAuth string | OAuthAuth string

record ClusterConfig =
  clusterId :: string
  name :: string
  adminUrl :: string
  serviceUrl :: string
  auth :: "AuthConfig option"
  authToken :: "string option"

record ConnectedCluster =
  clusterId :: string
  name :: string
  adminUrl :: string
  serviceUrl :: string
  connected :: bool
  connectedAt :: nat

text \<open>The argument of \<^verbatim>\<open>new PulsarAdmin(adminAuthConfig)\<close>, which the admin object keeps.\<close>

record PulsarAdminConfig =
  baseUrl :: string
  authToken :: "string option"
  oauthConfig :: "string option"

text \<open>The argument of \<^verbatim>\<open>new PulsarMessageClient(clientConfig)\<close>; \<open>authentication\<close> is the
  token of \<^verbatim>\<open>new Pulsar.AuthenticationToken({ token })\<close>.\<close>

record PulsarClientConfig =
  serviceUrl :: string
  authentication :: "string option"
  oauthConfig :: "string option"

text \<open>
  The private state of a \<^verbatim>\<open>PulsarMessageClient\<close>: \<open>pmc_client\<close> is \<^verbatim>\<open>this.client !== null\<close>
  (the native client is created by \<^verbatim>\<open>ensureClient\<close> on the first create call), and the
  three sets hold the wrappers the client has created, in insertion order.
\<close>

record PulsarMessageClient =
  pmc_config :: PulsarClientConfig
  pmc_client :: bool
  pmc_producers :: "handle list"
  pmc_consumers :: "handle list"
  pmc_readers :: "handle list"

definition new_PulsarMessageClient :: "PulsarClientConfig \<Rightarrow> PulsarMessageClient" where
  "new_PulsarMessageClient cfg =
     \<lparr> pmc_config = cfg, pmc_client = False,
       pmc_producers = [], pmc_consumers = [], pmc_readers = [] \<rparr>"

definition ensureClient :: "PulsarMessageClient \<Rightarrow> PulsarMessageClient" where
  "ensureClient c = (if \<not> pmc_client c then c\<lparr>pmc_client := True\<rparr> else c)"

text \<open>\<^verbatim>\<open>Set.add\<close>: an element already present keeps its place.\<close>

definition set_add :: "'a \<Rightarrow> 'a list \<Rightarrow> 'a list" where
  "set_add x xs = (if x \<in> set xs then xs else xs @ [x])"

text \<open>
  \<^verbatim>\<open>PulsarMessageClient.close\<close> awaits four times: \<^verbatim>\<open>Promise.all\<close> of the producers'
  closes, of the consumers', of the readers', and the native client's close. Each
  \<^verbatim>\<open>p.close()\<close> carries its own \<^verbatim>\<open>catch\<close> that logs, so the first three never reject.
  \<open>close_begin\<close> is the code up to the first await; \<open>close_after_producers\<close>,
  \<open>close_after_consumers\<close> and \<open>close_after_readers\<close> run from one await to the next,
  given the messages of the closes that failed; \<open>close_finish\<close> runs after the native
  client has closed. A \<open>None\<close> in place of the next phase means that \<^verbatim>\<open>close\<close> has
  returned. The console lines of the closes that failed are recorded when the
  \<^verbatim>\<open>Promise.all\<close> settles, in the order of the closes; the code writes each one when
  its close rejects, so relative to other tasks a line may come earlier there.
\<close>

datatype close_phase = ClosingProducers | ClosingConsumers | ClosingReaders | ClosingClient

definition close_begin :: "nat \<Rightarrow> PulsarMessageClient \<Rightarrow> observation list" where
  "close_begin ref c = map CloseProducer (pmc_producers c)"

definition close_after_producers ::
  "string list \<Rightarrow> PulsarMessageClient \<Rightarrow> PulsarMessageClient \<times> observation list" where
  "close_after_producers failures c =
     (c\<lparr>pmc_producers := []\<rparr>,
      map (\<lambda>e. ConsoleError (''Error closing producer: '' @ e)) failures
        @ map CloseConsumer (pmc_consumers c))"

definition close_after_consumers ::
  "string list \<Rightarrow> PulsarMessageClient \<Rightarrow> PulsarMessageClient \<times> observation list" where
  "close_after_consumers failures c =
     (c\<lparr>pmc_consumers := []\<rparr>,
      map (\<lambda>e. ConsoleError (''Error closing consumer: '' @ e)) failures
        @ map CloseReader (pmc_readers c))"

definition close_after_readers ::
  "nat \<Rightarrow> string list \<Rightarrow> PulsarMessageClient \<Rightarrow>
     PulsarMessageClient \<times> observation list \<times> close_phase option" where
  "close_after_readers ref failures c =
     (if pmc_client c
      then (c\<lparr>pmc_readers := []\<rparr>,
            map (\<lambda>e. ConsoleError (''Error closing reader: '' @ e)) failures
              @ [CloseClient ref],
            Some ClosingClient)
      else (c\<lparr>pmc_readers := []\<rparr>,
            map (\<lambda>e. ConsoleError (''Error closing reader: '' @ e)) failures, None))"

definition close_finish :: "PulsarMessageClient \<Rightarrow> PulsarMessageClient" where
  "close_finish c = c\<lparr>pmc_client := False\<rparr>"

text \<open>\<^verbatim>\<open>new PulsarAdmin(config)\<close> removes one trailing slash from the base URL
  (\<^verbatim>\<open>config.baseUrl.replace(/\/$/, '')\<close>) and keeps the credentials.\<close>

definition new_PulsarAdmin :: "PulsarAdminConfig \<Rightarrow> PulsarAdminConfig" where
  "new_PulsarAdmin cfg =
     (if baseUrl cfg \<noteq> [] \<and> last (baseUrl cfg) = CHR ''/''
      then cfg\<lparr>baseUrl := butlast (baseUrl cfg)\<rparr> else cfg)"

text \<open>The connection object stored in \<^verbatim>\<open>connectedClusters\<close>; \<open>client\<close> refers to the
  \<^verbatim>\<open>PulsarMessageClient\<close> object in the heap of the state.\<close>

record ClusterConnection =
  config :: ClusterConfig
  admin :: PulsarAdminConfig
  client :: nat
  connectedAt :: nat

subsection \<open>The state of the main process\<close>

text \<open>
  The module-level variables of \<^verbatim>\<open>main.ts\<close>. A JavaScript \<^verbatim>\<open>Map\<close> is an association
  list in insertion order: \<^verbatim>\<open>get\<close> is \<open>map_of\<close>, \<^verbatim>\<open>set\<close> is \<open>AList.update\<close> (an existing
  key keeps its place, a new one goes last), \<^verbatim>\<open>delete\<close> is \<open>AList.delete\<close>, \<^verbatim>\<open>clear\<close> is
  \<open>[]\<close>. \<open>mainWindow\<close> is \<^verbatim>\<open>mainWindow !== null\<close>. Objects that are shared by reference
  live in two heaps, a reference being an index: \<open>clientHeap\<close> holds the
  \<^verbatim>\<open>PulsarMessageClient\<close>s and \<open>scHeap\<close> the \<^verbatim>\<open>StreamingConsumer\<close>s, so that a receive
  loop and a handler that hold the same object see each other's writes, whether or not
  the object is still in a map. \<open>tasks\<close> are the handler invocations so far, each
  suspended at an await or finished with its response.
\<close>

datatype ipc_data = Void | Text string | Cluster ConnectedCluster

datatype task =
    Responded "ipc_data IPCResponse"
  | Disconnect_await string nat close_phase  \<comment> \<open>\<^verbatim>\<open>await connection.client.close()\<close>\<close>
  | StartConsumer_await nat                  \<comment> \<open>\<^verbatim>\<open>await connection.client.createConsumer(..)\<close>\<close>
  | StopConsumer_join nat string             \<comment> \<open>\<^verbatim>\<open>await streamingConsumer.receiveLoop\<close>\<close>
  | StopConsumer_close nat string            \<comment> \<open>\<^verbatim>\<open>await streamingConsumer.consumer.close()\<close>\<close>
  | ProducerCreate_await nat
  | ProducerClose_await string
  | ConsumerCreate_await nat
  | ConsumerClose_await string
  | BrowseMessages_await nat string
  | CloseReader_await string

record MainState =
  mainWindow :: bool
  connectedClusters :: "(string \<times> ClusterConnection) list"
  producers :: "(string \<times> handle) list"
  consumers :: "(string \<times> handle) list"
  readers :: "(string \<times> handle) list"
  streamingConsumers :: "(string \<times> nat) list"
  producerIdCounter :: nat
  consumerIdCounter :: nat
  clientHeap :: "PulsarMessageClient list"
  scHeap :: "StreamingConsumer list"
  nextHandle :: nat
  tasks :: "task list"
  trace :: "(actor \<times> observation) list"

definition initial_state :: MainState where
  "initial_state =
     \<lparr> mainWindow = False, connectedClusters = [], producers = [], consumers = [],
       readers = [], streamingConsumers = [], producerIdCounter = 0,
       consumerIdCounter = 0, clientHeap = [], scHeap = [], nextHandle = 0,
       tasks = [], trace = [] \<rparr>"

definition observe :: "actor \<Rightarrow> observation list \<Rightarrow> MainState \<Rightarrow> MainState" where
  "observe who obs s = s\<lparr>trace := trace s @ map (Pair who) obs\<rparr>"

subsection \<open>Cluster handlers\<close>

text \<open>
  \<^verbatim>\<open>cluster:connect\<close>. The handler has no await; \<open>now\<close> is \<^verbatim>\<open>Date.now()\<close>. The
  constructors of the native authentication object and of the OAuth client are taken
  not to throw.
\<close>

definition cluster_connect ::
  "ClusterConfig \<Rightarrow> nat \<Rightarrow> MainState \<Rightarrow> task \<times> MainState" where
  "cluster_connect cfg now s =
     (if map_of (connectedClusters s) (ClusterConfig.clusterId cfg) \<noteq> None
      then (Responded (error (''Cluster '' @ ClusterConfig.clusterId cfg
                                @ '' is already connected'')), s)
      else
        let adminAuthConfig0 =
              \<lparr> baseUrl = ClusterConfig.adminUrl cfg,
                authToken = None, oauthConfig = None \<rparr>;
            clientConfig0 =
              \<lparr> serviceUrl = ClusterConfig.serviceUrl cfg,
                authentication = None, oauthConfig = None \<rparr>;
            (adminAuthConfig, clientConfig) =
              (case auth cfg of
                 Some (TokenAuth token) \<Rightarrow>
                   (adminAuthConfig0\<lparr>PulsarAdminConfig.authToken := Some token\<rparr>,
                    clientConfig0\<lparr>authentication := Some token\<rparr>)
               | Some (OAuthAuth oauth) \<Rightarrow>
                   (adminAuthConfig0\<lparr>PulsarAdminConfig.oauthConfig := Some oauth\<rparr>,
                    clientConfig0\<lparr>PulsarClientConfig.oauthConfig := Some oauth\<rparr>)
               | None \<Rightarrow>
                   (case ClusterConfig.authToken cfg of
                      Some token \<Rightarrow>
                        if token \<noteq> []
                        then (adminAuthConfig0\<lparr>PulsarAdminConfig.authToken := Some token\<rparr>,
                              clientConfig0\<lparr>authentication := Some token\<rparr>)
                        else (adminAuthConfig0, clientConfig0)
                    | None \<Rightarrow> (adminAuthConfig0, clientConfig0)));
            connection =
              \<lparr> config = cfg, admin = new_PulsarAdmin adminAuthConfig,
                client = length (clientHeap s), connectedAt = now \<rparr>;
            result =
              \<lparr> ConnectedCluster.clusterId = ClusterConfig.clusterId cfg,
                name = ClusterConfig.name cfg,
                adminUrl = ClusterConfig.adminUrl cfg,
                serviceUrl = ClusterConfig.serviceUrl cfg,
                connected = True,
                connectedAt = now \<rparr>
        in (Responded (success (Cluster result)),
            s\<lparr>clientHeap := clientHeap s @ [new_PulsarMessageClient clientConfig],
              connectedClusters :=
                AList.update (ClusterConfig.clusterId cfg) connection (connectedClusters s)\<rparr>))"

text \<open>
  \<^verbatim>\<open>cluster:disconnect\<close>, up to its await: look the connection up and call
  \<^verbatim>\<open>connection.client.close()\<close>, which issues the producers' closes at once.
\<close>

definition cluster_disconnect :: "string \<Rightarrow> nat \<Rightarrow> MainState \<Rightarrow> task \<times> MainState" where
  "cluster_disconnect cid n s =
     (case map_of (connectedClusters s) cid of
        None \<Rightarrow> (Responded (error (''Cluster '' @ cid @ '' is not connected'')), s)
      | Some connection \<Rightarrow>
          (Disconnect_await cid (client connection) ClosingProducers,
           observe (Handler n)
             (close_begin (client connection) (clientHeap s ! client connection)) s))"

text \<open>The code after \<^verbatim>\<open>await connection.client.close()\<close> has returned normally.\<close>

definition cluster_disconnect_done :: "string \<Rightarrow> MainState \<Rightarrow> task \<times> MainState" where
  "cluster_disconnect_done cid s =
     (Responded (success Void),
      s\<lparr>connectedClusters := AList.delete cid (connectedClusters s)\<rparr>)"

text \<open>The resumptions of a disconnect: \<open>disconnect_all_settled\<close> when one of the three
  \<^verbatim>\<open>Promise.all\<close> settles, \<open>disconnect_client_settled\<close> when the native client's
  \<^verbatim>\<open>close\<close> settles; a rejection of that one reaches the handler's \<^verbatim>\<open>catch\<close>.\<close>

definition disconnect_all_settled ::
  "string \<Rightarrow> nat \<Rightarrow> close_phase \<Rightarrow> string list \<Rightarrow> nat \<Rightarrow> MainState \<Rightarrow> task \<times> MainState" where
  "disconnect_all_settled cid ref phase failures n s =
     (let c = clientHeap s ! ref in
      case phase of
        ClosingProducers \<Rightarrow>
          (Disconnect_await cid ref ClosingConsumers,
           observe (Handler n) (snd (close_after_producers failures c))
             (s\<lparr>clientHeap := (clientHeap s)[ref := fst (close_after_producers failures c)]\<rparr>))
      | ClosingConsumers \<Rightarrow>
          (Disconnect_await cid ref ClosingReaders,
           observe (Handler n) (snd (close_after_consumers failures c))
             (s\<lparr>clientHeap := (clientHeap s)[ref := fst (close_after_consumers failures c)]\<rparr>))
      | ClosingReaders \<Rightarrow>
          (case close_after_readers ref failures c of
             (c', obs, Some next) \<Rightarrow>
               (Disconnect_await cid ref next,
                observe (Handler n) obs (s\<lparr>clientHeap := (clientHeap s)[ref := c']\<rparr>))
           | (c', obs, None) \<Rightarrow>
               cluster_disconnect_done cid
                 (observe (Handler n) obs (s\<lparr>clientHeap := (clientHeap s)[ref := c']\<rparr>)))
      | ClosingClient \<Rightarrow> (Disconnect_await cid ref ClosingClient, s))"

definition disconnect_client_settled ::
  "string \<Rightarrow> nat \<Rightarrow> unit settled \<Rightarrow> MainState \<Rightarrow> task \<times> MainState" where
  "disconnect_client_settled cid ref outcome s =
     (case outcome of
        Resolved _ \<Rightarrow>
          cluster_disconnect_done cid
            (s\<lparr>clientHeap := (clientHeap s)[ref := close_finish (clientHeap s ! ref)]\<rparr>)
      | Rejected msg \<Rightarrow>
          (Responded (error (''Failed to disconnect cluster: '' @ msg)), s))"

subsection \<open>Producer, consumer and reader handlers\<close>

text \<open>
  Each create handler looks the connection up, calls the client's create method
  (\<^verbatim>\<open>ensureClient\<close>, then the native create) and awaits it. When the native create
  resolves, the wrapper is added to the client's set, the counter is incremented and the
  wrapper is stored under the new identifier. The new native object gets the next handle.
\<close>

definition not_connected :: "string \<Rightarrow> task" where
  "not_connected cid = Responded (error (''Cluster '' @ cid @ '' is not connected''))"

definition producer_create ::
  "string \<Rightarrow> string \<Rightarrow> nat \<Rightarrow> MainState \<Rightarrow> task \<times> MainState" where
  "producer_create cid topic n s =
     (case map_of (connectedClusters s) cid of
        None \<Rightarrow> (not_connected cid, s)
      | Some connection \<Rightarrow>
          (let ref = client connection in
           (ProducerCreate_await ref,
            observe (Handler n) [CreateProducer ref topic]
              (s\<lparr>clientHeap := (clientHeap s)[ref := ensureClient (clientHeap s ! ref)]\<rparr>))))"

definition producer_create_settled ::
  "nat \<Rightarrow> unit settled \<Rightarrow> MainState \<Rightarrow> task \<times> MainState" where
  "producer_create_settled ref outcome s =
     (case outcome of
        Resolved _ \<Rightarrow>
          (let h = nextHandle s;
               c = clientHeap s ! ref;
               producerId = producer_id (producerIdCounter s + 1)
           in (Responded (success (Text producerId)),
               s\<lparr>nextHandle := nextHandle s + 1,
                 clientHeap := (clientHeap s)[ref := c\<lparr>pmc_producers := set_add h (pmc_producers c)\<rparr>],
                 producerIdCounter := producerIdCounter s + 1,
                 producers := AList.update producerId h (producers s)\<rparr>))
      | Rejected msg \<Rightarrow> (Responded (error (''Failed to create producer: '' @ msg)), s))"

definition producer_close :: "string \<Rightarrow> nat \<Rightarrow> MainState \<Rightarrow> task \<times> MainState" where
  "producer_close producerId n s =
     (case map_of (producers s) producerId of
        None \<Rightarrow> (Responded (error (''Producer '' @ producerId @ '' not found'')), s)
      | Some producer \<Rightarrow>
          (ProducerClose_await producerId, observe (Handler n) [CloseProducer producer] s))"

definition producer_close_settled ::
  "string \<Rightarrow> unit settled \<Rightarrow> MainState \<Rightarrow> task \<times> MainState" where
  "producer_close_settled producerId outcome s =
     (case outcome of
        Resolved _ \<Rightarrow>
          (Responded (success Void), s\<lparr>producers := AList.delete producerId (producers s)\<rparr>)
      | Rejected msg \<Rightarrow> (Responded (error (''Failed to close producer: '' @ msg)), s))"

text \<open>\<^verbatim>\<open>createConsumer\<close> maps the subscription type to the native enumeration; the
  handlers replace a missing (falsy) type by \<^verbatim>\<open>'Exclusive'\<close>.\<close>

definition subscriptionType_code :: "string option \<Rightarrow> nat" where
  "subscriptionType_code t =
     (let t' = (case t of None \<Rightarrow> ''Exclusive'' | Some x \<Rightarrow> if x = [] then ''Exclusive'' else x)
      in if t' = ''Key_Shared'' then 3 else if t' = ''Failover'' then 2
         else if t' = ''Shared'' then 1 else 0)"

definition consumer_create ::
  "string \<Rightarrow> string \<Rightarrow> string \<Rightarrow> string option \<Rightarrow> nat \<Rightarrow> MainState \<Rightarrow> task \<times> MainState" where
  "consumer_create cid topic subscription subscriptionType n s =
     (case map_of (connectedClusters s) cid of
        None \<Rightarrow> (not_connected cid, s)
      | Some connection \<Rightarrow>
          (let ref = client connection in
           (ConsumerCreate_await ref,
            observe (Handler n)
              [Subscribe ref topic subscription (subscriptionType_code subscriptionType)]
              (s\<lparr>clientHeap := (clientHeap s)[ref := ensureClient (clientHeap s ! ref)]\<rparr>))))"

definition consumer_create_settled ::
  "nat \<Rightarrow> unit settled \<Rightarrow> MainState \<Rightarrow> task \<times> MainState" where
  "consumer_create_settled ref outcome s =
     (case outcome of
        Resolved _ \<Rightarrow>
          (let h = nextHandle s;
               c = clientHeap s ! ref;
               newId = consumer_id (consumerIdCounter s + 1)
           in (Responded (success (Text newId)),
               s\<lparr>nextHandle := nextHandle s + 1,
                 clientHeap := (clientHeap s)[ref := c\<lparr>pmc_consumers := set_add h (pmc_consumers c)\<rparr>],
                 consumerIdCounter := consumerIdCounter s + 1,
                 consumers := AList.update newId h (consumers s)\<rparr>))
      | Rejected msg \<Rightarrow> (Responded (error (''Failed to create consumer: '' @ msg)), s))"

text \<open>\<^verbatim>\<open>consumer:acknowledge\<close>: after the lookup the handler returns; its body is a
  comment.\<close>

definition consumer_acknowledge ::
  "string \<Rightarrow> string \<Rightarrow> MainState \<Rightarrow> task \<times> MainState" where
  "consumer_acknowledge consId msgId s =
     (case map_of (consumers s) consId of
        None \<Rightarrow> (Responded (error (''Consumer '' @ consId @ '' not found'')), s)
      | Some cons \<Rightarrow> (Responded (success Void), s))"

definition consumer_close :: "string \<Rightarrow> nat \<Rightarrow> MainState \<Rightarrow> task \<times> MainState" where
  "consumer_close consId n s =
     (case map_of (consumers s) consId of
        None \<Rightarrow> (Responded (error (''Consumer '' @ consId @ '' not found'')), s)
      | Some cons \<Rightarrow>
          (ConsumerClose_await consId, observe (Handler n) [CloseConsumer cons] s))"

definition consumer_close_settled ::
  "string \<Rightarrow> unit settled \<Rightarrow> MainState \<Rightarrow> task \<times> MainState" where
  "consumer_close_settled consId outcome s =
     (case outcome of
        Resolved _ \<Rightarrow>
          (Responded (success Void), s\<lparr>consumers := AList.delete consId (consumers s)\<rparr>)
      | Rejected msg \<Rightarrow> (Responded (error (''Failed to close consumer: '' @ msg)), s))"

text \<open>\<^verbatim>\<open>messages:browseMessages\<close> creates a reader; its identifier takes the next value
  of \<^verbatim>\<open>consumerIdCounter\<close>. \<^verbatim>\<open>messages:closeReader\<close> closes it.\<close>

definition browseMessages ::
  "string \<Rightarrow> string \<Rightarrow> nat \<Rightarrow> MainState \<Rightarrow> task \<times> MainState" where
  "browseMessages cid topic n s =
     (case map_of (connectedClusters s) cid of
        None \<Rightarrow> (not_connected cid, s)
      | Some connection \<Rightarrow>
          (let ref = client connection in
           (BrowseMessages_await ref topic,
            observe (Handler n) [CreateReader ref topic]
              (s\<lparr>clientHeap := (clientHeap s)[ref := ensureClient (clientHeap s ! ref)]\<rparr>))))"

definition browseMessages_settled ::
  "nat \<Rightarrow> string \<Rightarrow> unit settled \<Rightarrow> nat \<Rightarrow> MainState \<Rightarrow> task \<times> MainState" where
  "browseMessages_settled ref topic outcome n s =
     (case outcome of
        Resolved _ \<Rightarrow>
          (let h = nextHandle s;
               c = clientHeap s ! ref;
               readerId = reader_id (consumerIdCounter s + 1)
           in (Responded (success (Text readerId)),
               observe (Handler n) [ConsoleLog (''Created reader '' @ readerId @ '' for '' @ topic)]
                 (s\<lparr>nextHandle := nextHandle s + 1,
                    clientHeap := (clientHeap s)[ref := c\<lparr>pmc_readers := set_add h (pmc_readers c)\<rparr>],
                    consumerIdCounter := consumerIdCounter s + 1,
                    readers := AList.update readerId h (readers s)\<rparr>)))
      | Rejected msg \<Rightarrow> (Responded (error (''Failed to create reader: '' @ msg)), s))"

definition closeReader :: "string \<Rightarrow> nat \<Rightarrow> MainState \<Rightarrow> task \<times> MainState" where
  "closeReader readerId n s =
     (case map_of (readers s) readerId of
        None \<Rightarrow> (Responded (error (''Reader '' @ readerId @ '' not found'')), s)
      | Some reader \<Rightarrow>
          (CloseReader_await readerId, observe (Handler n) [CloseReader reader] s))"

definition closeReader_settled ::
  "string \<Rightarrow> unit settled \<Rightarrow> nat \<Rightarrow> MainState \<Rightarrow> task \<times> MainState" where
  "closeReader_settled readerId outcome n s =
     (case outcome of
        Resolved _ \<Rightarrow>
          (Responded (success Void),
           observe (Handler n) [ConsoleLog (''Closed reader '' @ readerId)]
             (s\<lparr>readers := AList.delete readerId (readers s)\<rparr>))
      | Rejected msg \<Rightarrow> (Responded (error (''Failed to close reader: '' @ msg)), s))"

subsection \<open>The streaming consumer handlers\<close>

text \<open>\<^verbatim>\<open>messages:startConsumer\<close>, up to \<^verbatim>\<open>await connection.client.createConsumer(..)\<close>.\<close>

definition startConsumer ::
  "string \<Rightarrow> string \<Rightarrow> string \<Rightarrow> string option \<Rightarrow> nat \<Rightarrow> MainState \<Rightarrow> task \<times> MainState" where
  "startConsumer cid topic subscription subscriptionType n s =
     (case map_of (connectedClusters s) cid of
        None \<Rightarrow> (not_connected cid, s)
      | Some connection \<Rightarrow>
          (let ref = client connection in
           (StartConsumer_await ref,
            observe (Handler n)
              [Subscribe ref topic subscription (subscriptionType_code subscriptionType)]
              (s\<lparr>clientHeap := (clientHeap s)[ref := ensureClient (clientHeap s ! ref)]\<rparr>))))"

text \<open>
  After the subscribe has settled. On success the object is created with both flags
  false and \<^verbatim>\<open>receiveLoop: null\<close>, stored in the map, and
  \<^verbatim>\<open>startConsumerLoop(streamingConsumer)\<close> is called: an async function runs in its
  caller up to its first await, so the loop reaches its first \<^verbatim>\<open>receive_timeout\<close>
  before the handler returns the identifier.
\<close>

definition startConsumer_settled ::
  "nat \<Rightarrow> unit settled \<Rightarrow> MainState \<Rightarrow> task \<times> MainState" where
  "startConsumer_settled ref outcome s =
     (case outcome of
        Resolved _ \<Rightarrow>
          (let h = nextHandle s;
               c = clientHeap s ! ref;
               newId = streaming_consumer_id (consumerIdCounter s + 1);
               streamingConsumer =
                 \<lparr> consumerId = newId, consumer = h, paused = False,
                   stopRequested = False, receiveLoop = None \<rparr>;
               a = length (scHeap s)
           in (Responded (success (Text newId)),
               observe (ReceiveLoop a) (snd (loop_head streamingConsumer))
                 (s\<lparr>nextHandle := nextHandle s + 1,
                    clientHeap := (clientHeap s)[ref := c\<lparr>pmc_consumers := set_add h (pmc_consumers c)\<rparr>],
                    consumerIdCounter := consumerIdCounter s + 1,
                    streamingConsumers := AList.update newId a (streamingConsumers s),
                    scHeap := scHeap s @ [fst (loop_head streamingConsumer)]\<rparr>)))
      | Rejected msg \<Rightarrow> (Responded (error (''Failed to start consumer: '' @ msg)), s))"

text \<open>\<^verbatim>\<open>messages:pauseConsumer\<close> has no await.\<close>

definition pauseConsumer :: "string \<Rightarrow> MainState \<Rightarrow> task \<times> MainState" where
  "pauseConsumer consId s =
     (case map_of (streamingConsumers s) consId of
        None \<Rightarrow> (Responded (error (''Consumer '' @ consId @ '' not found'')), s)
      | Some a \<Rightarrow>
          (Responded (success Void),
           s\<lparr>scHeap := (scHeap s)[a := (scHeap s ! a)\<lparr>paused := True\<rparr>]\<rparr>))"

text \<open>
  \<^verbatim>\<open>messages:stopConsumer\<close> in three segments: up to \<^verbatim>\<open>await streamingConsumer.receiveLoop\<close>
  (when \<^verbatim>\<open>receiveLoop\<close> is \<^verbatim>\<open>null\<close> the handler goes on to the close at once); from there
  to \<^verbatim>\<open>await streamingConsumer.consumer.close()\<close>; and after the close has settled.
\<close>

definition stopConsumer :: "string \<Rightarrow> nat \<Rightarrow> MainState \<Rightarrow> task \<times> MainState" where
  "stopConsumer consId n s =
     (case map_of (streamingConsumers s) consId of
        None \<Rightarrow> (Responded (error (''Consumer '' @ consId @ '' not found'')), s)
      | Some a \<Rightarrow>
          (let s' = s\<lparr>scHeap := (scHeap s)[a := (scHeap s ! a)\<lparr>stopRequested := True\<rparr>]\<rparr>
           in if receiveLoop (scHeap s ! a) \<noteq> None
              then (StopConsumer_join a consId, s')
              else (StopConsumer_close a consId,
                    observe (Handler n) [CloseConsumer (consumer (scHeap s ! a))] s')))"

definition stopConsumer_joined :: "nat \<Rightarrow> string \<Rightarrow> nat \<Rightarrow> MainState \<Rightarrow> task \<times> MainState" where
  "stopConsumer_joined a consId n s =
     (StopConsumer_close a consId,
      observe (Handler n) [CloseConsumer (consumer (scHeap s ! a))] s)"

definition stopConsumer_settled ::
  "string \<Rightarrow> unit settled \<Rightarrow> MainState \<Rightarrow> task \<times> MainState" where
  "stopConsumer_settled consId outcome s =
     (case outcome of
        Resolved _ \<Rightarrow>
          (Responded (success Void),
           s\<lparr>streamingConsumers := AList.delete consId (streamingConsumers s)\<rparr>)
      | Rejected msg \<Rightarrow> (Responded (error (''Failed to stop consumer: '' @ msg)), s))"

subsection \<open>The event loop\<close>

datatype request =
    ClusterConnect ClusterConfig nat
  | ClusterDisconnect string
  | ProducerCreate string string
  | ProducerClose string
  | ConsumerCreate string string string "string option"
  | ConsumerAcknowledge string string
  | ConsumerClose string
  | MessagesBrowseMessages string string
  | MessagesCloseReader string
  | MessagesStartConsumer string string string "string option"
  | MessagesPauseConsumer string
  | MessagesStopConsumer string

text \<open>
  The events: an IPC call arrives; the native promise that task \<open>n\<close> awaits settles; a
  \<^verbatim>\<open>Promise.all\<close> that task \<open>n\<close> awaits settles; the task \<open>n\<close> that awaits a receive loop
  is resumed; the receive loop of the object at \<open>a\<close> is resumed; the window is created
  or closed.
\<close>

datatype event =
    Call request
  | Settle nat "unit settled"
  | AllSettled nat "string list"
  | Joined nat
  | Loop nat loop_event
  | WindowCreated
  | WindowClosed

text \<open>The first segment of the handler of a request, run as task \<open>n\<close>.\<close>

fun handle_call :: "request \<Rightarrow> nat \<Rightarrow> MainState \<Rightarrow> task \<times> MainState" where
  "handle_call (ClusterConnect cfg now) n s = cluster_connect cfg now s"
| "handle_call (ClusterDisconnect cid) n s = cluster_disconnect cid n s"
| "handle_call (ProducerCreate cid topic) n s = producer_create cid topic n s"
| "handle_call (ProducerClose producerId) n s = producer_close producerId n s"
| "handle_call (ConsumerCreate cid topic sub ty) n s = consumer_create cid topic sub ty n s"
| "handle_call (ConsumerAcknowledge consId msgId) n s = consumer_acknowledge consId msgId s"
| "handle_call (ConsumerClose consId) n s = consumer_close consId n s"
| "handle_call (MessagesBrowseMessages cid topic) n s = browseMessages cid topic n s"
| "handle_call (MessagesCloseReader readerId) n s = closeReader readerId n s"
| "handle_call (MessagesStartConsumer cid topic sub ty) n s = startConsumer cid topic sub ty n s"
| "handle_call (MessagesPauseConsumer consId) n s = pauseConsumer consId s"
| "handle_call (MessagesStopConsumer consId) n s = stopConsumer consId n s"

text \<open>Task \<open>n\<close>, suspended in \<open>t\<close>, when the single native promise it awaits settles. A
  task that awaits something else, or has responded, is left as it is.\<close>

fun settle_task :: "task \<Rightarrow> unit settled \<Rightarrow> nat \<Rightarrow> MainState \<Rightarrow> task \<times> MainState" where
  "settle_task (Disconnect_await cid ref ClosingClient) outcome n s =
     disconnect_client_settled cid ref outcome s"
| "settle_task (StartConsumer_await ref) outcome n s = startConsumer_settled ref outcome s"
| "settle_task (StopConsumer_close a consId) outcome n s = stopConsumer_settled consId outcome s"
| "settle_task (ProducerCreate_await ref) outcome n s = producer_create_settled ref outcome s"
| "settle_task (ProducerClose_await producerId) outcome n s =
     producer_close_settled producerId outcome s"
| "settle_task (ConsumerCreate_await ref) outcome n s = consumer_create_settled ref outcome s"
| "settle_task (ConsumerClose_await consId) outcome n s = consumer_close_settled consId outcome s"
| "settle_task (BrowseMessages_await ref topic) outcome n s =
     browseMessages_settled ref topic outcome n s"
| "settle_task (CloseReader_await readerId) outcome n s = closeReader_settled readerId outcome n s"
| "settle_task t outcome n s = (t, s)"

text \<open>Task \<open>n\<close> when an awaited \<^verbatim>\<open>Promise.all\<close> settles, and when an awaited receive
  loop has returned. A task can only be resumed from \<^verbatim>\<open>await streamingConsumer.receiveLoop\<close>
  once that promise is settled, that is, once the loop has left its \<^verbatim>\<open>while\<close>.\<close>

fun all_settled_task :: "task \<Rightarrow> string list \<Rightarrow> nat \<Rightarrow> MainState \<Rightarrow> task \<times> MainState" where
  "all_settled_task (Disconnect_await cid ref phase) failures n s =
     disconnect_all_settled cid ref phase failures n s"
| "all_settled_task t failures n s = (t, s)"

fun joined_task :: "task \<Rightarrow> nat \<Rightarrow> MainState \<Rightarrow> task \<times> MainState" where
  "joined_task (StopConsumer_join a consId) n s =
     (if receiveLoop (scHeap s ! a) = Some LoopReturned
      then stopConsumer_joined a consId n s
      else (StopConsumer_join a consId, s))"
| "joined_task t n s = (t, s)"

definition resume_task :: "nat \<Rightarrow> (task \<Rightarrow> nat \<Rightarrow> MainState \<Rightarrow> task \<times> MainState) \<Rightarrow> MainState \<Rightarrow> MainState" where
  "resume_task n segment s =
     (if n < length (tasks s)
      then (let r = segment (tasks s ! n) n s
            in (snd r)\<lparr>tasks := (tasks (snd r))[n := fst r]\<rparr>)
      else s)"

fun step :: "event \<Rightarrow> MainState \<Rightarrow> MainState" where
  "step (Call req) s =
     (let r = handle_call req (length (tasks s)) s
      in (snd r)\<lparr>tasks := tasks (snd r) @ [fst r]\<rparr>)"
| "step (Settle n outcome) s = resume_task n (\<lambda>t. settle_task t outcome) s"
| "step (AllSettled n failures) s = resume_task n (\<lambda>t. all_settled_task t failures) s"
| "step (Joined n) s = resume_task n joined_task s"
| "step (Loop a ev) s =
     (if a < length (scHeap s)
      then (let r = startConsumerLoop_resume (mainWindow s) ev (scHeap s ! a)
            in observe (ReceiveLoop a) (snd r) (s\<lparr>scHeap := (scHeap s)[a := fst r]\<rparr>))
      else s)"
| "step WindowCreated s = s\<lparr>mainWindow := True\<rparr>"
| "step WindowClosed s = s\<lparr>mainWindow := False\<rparr>"

fun run :: "event list \<Rightarrow> MainState \<Rightarrow> MainState" where
  "run [] s = s"
| "run (e # es) s = run es (step e s)"

subsection \<open>Shutdown\<close>

text \<open>
  The \<^verbatim>\<open>before-quit\<close> handler, run to its end with no IPC call served in between. The
  oracle \<open>err\<close> says for each native object whether its \<^verbatim>\<open>close\<close> rejects, and with which
  message; \<open>cerr\<close> says the same for the native client of each \<^verbatim>\<open>PulsarMessageClient\<close>.
  Every close sits in its own \<^verbatim>\<open>try\<close>, whose \<^verbatim>\<open>catch\<close> logs.
\<close>

fun close_each ::
  "(handle \<Rightarrow> observation) \<Rightarrow> string \<Rightarrow> (handle \<Rightarrow> string option) \<Rightarrow>
     (string \<times> handle) list \<Rightarrow> observation list" where
  "close_each mk kind err [] = []"
| "close_each mk kind err ((ident, h) # rest) =
     mk h #
     (case err h of
        None \<Rightarrow> []
      | Some e \<Rightarrow> [ConsoleError (''Error closing '' @ kind @ '' '' @ ident @ '': '' @ e)])
     @ close_each mk kind err rest"

definition quit_producers :: "(handle \<Rightarrow> string option) \<Rightarrow> MainState \<Rightarrow> MainState" where
  "quit_producers err s =
     (observe BeforeQuit (close_each CloseProducer ''producer'' err (producers s)) s)
       \<lparr>producers := []\<rparr>"

definition quit_consumers :: "(handle \<Rightarrow> string option) \<Rightarrow> MainState \<Rightarrow> MainState" where
  "quit_consumers err s =
     (observe BeforeQuit (close_each CloseConsumer ''consumer'' err (consumers s)) s)
       \<lparr>consumers := []\<rparr>"

text \<open>
  For each streaming consumer: set \<^verbatim>\<open>stopRequested\<close>, await the loop, close the consumer.
  The await returns when the loop has returned; a loop whose stop is requested returns
  at its next resumption without a further receive, push or acknowledge
  (lemma \<open>loop_resume_stopped\<close> below), so the join is modelled by its result: the
  loop has returned. What a receive still in flight returns to that last resumption is
  not recorded in the trace.
\<close>

fun quit_streaming ::
  "(handle \<Rightarrow> string option) \<Rightarrow> (string \<times> nat) list \<Rightarrow> MainState \<Rightarrow> MainState" where
  "quit_streaming err [] s = s"
| "quit_streaming err ((ident, a) # rest) s =
     (let sc = (scHeap s ! a)\<lparr>stopRequested := True\<rparr>;
          sc' = (if receiveLoop sc \<noteq> None then sc\<lparr>receiveLoop := Some LoopReturned\<rparr> else sc)
      in quit_streaming err rest
           (observe BeforeQuit
              (CloseConsumer (consumer sc) #
               (case err (consumer sc) of
                  None \<Rightarrow> []
                | Some e \<Rightarrow>
                    [ConsoleError (''Error closing streaming consumer '' @ ident @ '': '' @ e)]))
              (s\<lparr>scHeap := (scHeap s)[a := sc']\<rparr>)))"

definition quit_streamingConsumers :: "(handle \<Rightarrow> string option) \<Rightarrow> MainState \<Rightarrow> MainState" where
  "quit_streamingConsumers err s =
     (quit_streaming err (streamingConsumers s) s)\<lparr>streamingConsumers := []\<rparr>"

text \<open>\<^verbatim>\<open>PulsarMessageClient.close\<close> run to its end: the four segments in sequence.\<close>

definition client_close ::
  "(handle \<Rightarrow> string option) \<Rightarrow> string option \<Rightarrow> nat \<Rightarrow> PulsarMessageClient \<Rightarrow>
     PulsarMessageClient \<times> observation list \<times> unit settled" where
  "client_close err client_err ref c =
     (let obs0 = close_begin ref c;
          r1 = close_after_producers (List.map_filter err (pmc_producers c)) c;
          r2 = close_after_consumers (List.map_filter err (pmc_consumers (fst r1))) (fst r1);
          r3 = close_after_readers ref (List.map_filter err (pmc_readers (fst r2))) (fst r2);
          obs = obs0 @ snd r1 @ snd r2 @ fst (snd r3)
      in case snd (snd r3) of
           None \<Rightarrow> (fst r3, obs, Resolved ())
         | Some _ \<Rightarrow>
             (case client_err of
                None \<Rightarrow> (close_finish (fst r3), obs, Resolved ())
              | Some e \<Rightarrow> (fst r3, obs, Rejected e)))"

fun quit_clusters ::
  "(handle \<Rightarrow> string option) \<Rightarrow> (nat \<Rightarrow> string option) \<Rightarrow>
     (string \<times> ClusterConnection) list \<Rightarrow> MainState \<Rightarrow> MainState" where
  "quit_clusters err cerr [] s = s"
| "quit_clusters err cerr ((cid, connection) # rest) s =
     (let ref = client connection;
          r = client_close err (cerr ref) ref (clientHeap s ! ref)
      in quit_clusters err cerr rest
           (observe BeforeQuit
              (fst (snd r) @
               (case snd (snd r) of
                  Resolved _ \<Rightarrow> []
                | Rejected e \<Rightarrow> [ConsoleError (''Error closing cluster '' @ cid @ '': '' @ e)]))
              (s\<lparr>clientHeap := (clientHeap s)[ref := fst r]\<rparr>)))"

definition quit_connectedClusters ::
  "(handle \<Rightarrow> string option) \<Rightarrow> (nat \<Rightarrow> string option) \<Rightarrow> MainState \<Rightarrow> MainState" where
  "quit_connectedClusters err cerr s =
     (quit_clusters err cerr (connectedClusters s) s)\<lparr>connectedClusters := []\<rparr>"

definition before_quit ::
  "(handle \<Rightarrow> string option) \<Rightarrow> (nat \<Rightarrow> string option) \<Rightarrow> MainState \<Rightarrow> MainState" where
  "before_quit err cerr s =
     quit_connectedClusters err cerr
       (quit_streamingConsumers err (quit_consumers err (quit_producers err s)))"

subsection \<open>Vocabulary of the statements\<close>

text \<open>
  The three stores of resource handles are treated alike by their close handlers
  (\<^verbatim>\<open>producer:close\<close>, \<^verbatim>\<open>consumer:close\<close>, \<^verbatim>\<open>messages:closeReader\<close>); the following
  functions name, for each kind, the store, the request, the native call and the prefix
  of the error message, so that one statement covers the three handlers.
\<close>

datatype resource_kind = Producer | Consumer | Reader

fun registry :: "resource_kind \<Rightarrow> MainState \<Rightarrow> (string \<times> handle) list" where
  "registry Producer s = producers s"
| "registry Consumer s = consumers s"
| "registry Reader s = readers s"

fun close_request :: "resource_kind \<Rightarrow> string \<Rightarrow> request" where
  "close_request Producer ident = ProducerClose ident"
| "close_request Consumer ident = ConsumerClose ident"
| "close_request Reader ident = MessagesCloseReader ident"

fun native_close :: "resource_kind \<Rightarrow> handle \<Rightarrow> observation" where
  "native_close Producer h = CloseProducer h"
| "native_close Consumer h = CloseConsumer h"
| "native_close Reader h = CloseReader h"

fun close_failure :: "resource_kind \<Rightarrow> string" where
  "close_failure Producer = ''Failed to close producer: ''"
| "close_failure Consumer = ''Failed to close consumer: ''"
| "close_failure Reader = ''Failed to close reader: ''"


subsection \<open>Trace projections\<close>

text \<open>
  What the receive loop of the streaming consumer at \<open>a\<close> did, read off a trace: the
  messages it pushed to the renderer, the messages its receives returned, and the
  receives it issued, each in trace order.
\<close>

fun push_of :: "nat \<Rightarrow> actor \<times> observation \<Rightarrow> BrowsedMessage option" where
  "push_of a (ReceiveLoop a', WebContentsSend c b) = (if a' = a then Some b else None)"
| "push_of a entry = None"

fun receipt_of :: "nat \<Rightarrow> actor \<times> observation \<Rightarrow> PulsarMessage option" where
  "receipt_of a (ReceiveLoop a', ReceiveReturned (Some m)) = (if a' = a then Some m else None)"
| "receipt_of a entry = None"

fun receive_of :: "nat \<Rightarrow> actor \<times> observation \<Rightarrow> (handle \<times> nat) option" where
  "receive_of a (ReceiveLoop a', Receive h ms) = (if a' = a then Some (h, ms) else None)"
| "receive_of a entry = None"

definition pushed_by :: "nat \<Rightarrow> (actor \<times> observation) list \<Rightarrow> BrowsedMessage list" where
  "pushed_by a tr = List.map_filter (push_of a) tr"

definition received_by :: "nat \<Rightarrow> (actor \<times> observation) list \<Rightarrow> PulsarMessage list" where
  "received_by a tr = List.map_filter (receipt_of a) tr"

definition receives_issued_by ::
  "nat \<Rightarrow> (actor \<times> observation) list \<Rightarrow> (handle \<times> nat) list" where
  "receives_issued_by a tr = List.map_filter (receive_of a) tr"

text \<open>An entry of the trace made by a handler or by the shutdown, not by a receive loop.\<close>

fun handler_entry :: "actor \<times> observation \<Rightarrow> bool" where
  "handler_entry (ReceiveLoop a, ob) = False"
| "handler_entry (who, ob) = True"

subsection \<open>Invariant of the streaming consumers\<close>

text \<open>
  \<open>issued s c\<close>: the identifier \<open>c\<close> is one that \<^verbatim>\<open>messages:startConsumer\<close> has generated so
  far. The invariant of the reachable states: the loop of every \<^verbatim>\<open>StreamingConsumer\<close>
  object has been started; the map refers to existing objects under issued identifiers;
  a stop handler that is suspended refers to an existing object, and one that is
  suspended in the consumer's close refers to an object whose loop has returned.
\<close>

definition issued :: "MainState \<Rightarrow> string \<Rightarrow> bool" where
  "issued s c = (\<exists>k \<le> consumerIdCounter s. c = streaming_consumer_id k)"

fun task_ok :: "MainState \<Rightarrow> task \<Rightarrow> bool" where
  "task_ok s (StopConsumer_join a c) = (a < length (scHeap s) \<and> issued s c)"
| "task_ok s (StopConsumer_close a c) =
     (a < length (scHeap s) \<and> receiveLoop (scHeap s ! a) = Some LoopReturned \<and> issued s c)"
| "task_ok s t = True"

definition supervisor_inv :: "MainState \<Rightarrow> bool" where
  "supervisor_inv s =
     ((\<forall>a < length (scHeap s). receiveLoop (scHeap s ! a) \<noteq> None) \<and>
      (\<forall>c a. map_of (streamingConsumers s) c = Some a \<longrightarrow>
         a < length (scHeap s) \<and> issued s c) \<and>
      (\<forall>n < length (tasks s). task_ok s (tasks s ! n)))"

text \<open>
  A segment of code is foreign to the streaming consumers when it leaves their objects
  and their map alone, does not lower the counter, leaves the other tasks alone, does
  not end suspended in \<^verbatim>\<open>messages:stopConsumer\<close>, and adds only handler entries to the
  trace. The segments of all handlers but pause, stop and the second half of start are.
\<close>

fun supervisor_task :: "task \<Rightarrow> bool" where
  "supervisor_task (StopConsumer_join a c) = True"
| "supervisor_task (StopConsumer_close a c) = True"
| "supervisor_task t = False"

definition foreign :: "MainState \<Rightarrow> task \<times> MainState \<Rightarrow> bool" where
  "foreign s r =
     (scHeap (snd r) = scHeap s \<and> streamingConsumers (snd r) = streamingConsumers s \<and>
      consumerIdCounter s \<le> consumerIdCounter (snd r) \<and> tasks (snd r) = tasks s \<and>
      \<not> supervisor_task (fst r) \<and>
      (\<exists>obs. trace (snd r) = trace s @ obs \<and> list_all handler_entry obs))"

subsection \<open>Example inputs\<close>

definition example_config :: ClusterConfig where
  "example_config =
     \<lparr> ClusterConfig.clusterId = ''c1'', name = ''local'',
       adminUrl = ''http://localhost:8080/'', serviceUrl = ''pulsar://localhost:6650'',
       auth = None, authToken = None \<rparr>"

definition example_message :: NativeMessage where
  "example_message =
     \<lparr> getData = ''{\"k\":\"v\"}'', getMessageId = ''1:0:0'', getProperties = None,
       getPublishTimestamp = 1700, getEventTimestamp = 0,
       getRedeliveryCount = 0, getPartitionKey = [], getTopicName = ''t'' \<rparr>"

text \<open>The connection, the client object (given its native client flag and its three
  sets) and the response that \<^verbatim>\<open>cluster:connect\<close> of \<open>example_config\<close> at time 100
  creates.\<close>

definition example_connection :: ClusterConnection where
  "example_connection =
     \<lparr> config = example_config,
       admin = \<lparr> baseUrl = ''http://localhost:8080'', authToken = None, oauthConfig = None \<rparr>,
       client = 0, connectedAt = 100 \<rparr>"

definition example_client ::
  "bool \<Rightarrow> handle list \<Rightarrow> handle list \<Rightarrow> handle list \<Rightarrow> PulsarMessageClient" where
  "example_client created ps cs rs =
     \<lparr> pmc_config = \<lparr> PulsarClientConfig.serviceUrl = ''pulsar://localhost:6650'',
                       authentication = None, oauthConfig = None \<rparr>,
       pmc_client = created, pmc_producers = ps, pmc_consumers = cs, pmc_readers = rs \<rparr>"

definition example_connect_response :: task where
  "example_connect_response =
     Responded (success (Cluster
       \<lparr> ConnectedCluster.clusterId = ''c1'', name = ''local'',
         adminUrl = ''http://localhost:8080/'', serviceUrl = ''pulsar://localhost:6650'',
         connected = True, connectedAt = 100 \<rparr>))"

text \<open>The main process after \<^verbatim>\<open>cluster:connect\<close> of \<open>c1\<close> at time 100.\<close>

definition example_connected :: MainState where
  "example_connected = run [Call (ClusterConnect example_config 100)] initial_state"

text \<open>After that, a producer, a one-shot consumer and a reader have been created on
  \<open>c1\<close>: \<open>producer_1\<close>, \<open>consumer_1\<close> and \<open>reader_2\<close>.\<close>

definition example_resources :: MainState where
  "example_resources =
     run [Call (ProducerCreate ''c1'' ''t''), Settle 1 (Resolved ()),
          Call (ConsumerCreate ''c1'' ''t'' ''s1'' None), Settle 2 (Resolved ()),
          Call (MessagesBrowseMessages ''c1'' ''t''), Settle 3 (Resolved ())]
       example_connected"

text \<open>After connecting: a streaming consumer has been started on topic \<open>t\<close> with
  subscription \<open>s1\<close> and the window exists.\<close>

definition example_streaming :: MainState where
  "example_streaming =
     run [Call (MessagesStartConsumer ''c1'' ''t'' ''s1'' None), Settle 1 (Resolved ()),
          WindowCreated]
       example_connected"

text \<open>The message \<open>example_message\<close> as \<^verbatim>\<open>receive_timeout\<close> returns it, and the streaming
  consumer object of the examples, given its flags and where its loop stands.\<close>

definition example_pulsar_message :: PulsarMessage where
  "example_pulsar_message =
     \<lparr> messageId = ''1:0:0'', data = ''{\"k\":\"v\"}'', properties = [],
       publishTimestamp = 1700, eventTimestamp = 0, partitionKey = None,
       topicName = ''t'', redeliveryCount = 0 \<rparr>"

definition example_consumer :: "bool \<Rightarrow> bool \<Rightarrow> loop_point \<Rightarrow> StreamingConsumer" where
  "example_consumer p st at =
     \<lparr> consumerId = ''streaming_consumer_1'', consumer = 0, paused = p,
       stopRequested = st, receiveLoop = Some at \<rparr>"

text \<open>From \<open>example_streaming\<close>: the receive has returned \<open>example_message\<close>.\<close>

definition example_received :: MainState where
  "example_received =
     step (Loop 0 (ReceiveSettles (Resolved example_message))) example_streaming"

text \<open>From \<open>example_streaming\<close>: \<^verbatim>\<open>messages:stopConsumer\<close> has been called and waits for
  the loop; and then: the receive in flight has timed out, the loop has returned and the
  handler has called the consumer's close.\<close>

definition example_stopping :: MainState where
  "example_stopping =
     step (Call (MessagesStopConsumer ''streaming_consumer_1'')) example_streaming"

definition example_closing :: MainState where
  "example_closing =
     run [Loop 0 (ReceiveSettles (Rejected ''TimeOut'')), Joined 2] example_stopping"

text \<open>From \<open>example_streaming\<close>: \<^verbatim>\<open>messages:pauseConsumer\<close> has been called.\<close>

definition example_paused :: MainState where
  "example_paused =
     step (Call (MessagesPauseConsumer ''streaming_consumer_1'')) example_streaming"

section \<open>Properties\<close>

subsection \<open>Evaluation and identifiers\<close>

lemmas handler_defs =
  cluster_connect_def cluster_disconnect_def cluster_disconnect_done_def
  disconnect_all_settled_def disconnect_client_settled_def
  producer_create_def producer_create_settled_def producer_close_def producer_close_settled_def
  consumer_create_def consumer_create_settled_def consumer_close_def consumer_close_settled_def
  consumer_acknowledge_def browseMessages_def browseMessages_settled_def
  closeReader_def closeReader_settled_def
  startConsumer_def startConsumer_settled_def pauseConsumer_def
  stopConsumer_def stopConsumer_joined_def stopConsumer_settled_def
  resume_task_def observe_def loop_head_def startConsumerLoop_resume_def receive_timeout_def
  producer_id_def consumer_id_def reader_id_def streaming_consumer_id_def
  string_of_nat.simps digit_char_def
  new_PulsarAdmin_def new_PulsarMessageClient_def ensureClient_def set_add_def
  convertMessage_def browsedMsg_def
  close_begin_def close_after_producers_def close_after_consumers_def
  close_after_readers_def close_finish_def
  subscriptionType_code_def not_connected_def Let_def

lemmas example_defs =
  example_config_def example_connection_def example_client_def example_connect_response_def

text \<open>The example states, evaluated.\<close>

lemma example_connected_eq:
  "example_connected =
     \<lparr> mainWindow = False,
       connectedClusters = [(''c1'', example_connection)],
       producers = [], consumers = [], readers = [], streamingConsumers = [],
       producerIdCounter = 0, consumerIdCounter = 0,
       clientHeap = [example_client False [] [] []],
       scHeap = [], nextHandle = 0,
       tasks = [example_connect_response],
       trace = [] \<rparr>"
  by (simp add: example_connected_def initial_state_def cluster_connect_def example_defs
        new_PulsarAdmin_def new_PulsarMessageClient_def)

lemma example_resources_eq:
  "example_resources =
     \<lparr> mainWindow = False,
       connectedClusters = [(''c1'', example_connection)],
       producers = [(''producer_1'', 0)], consumers = [(''consumer_1'', 1)],
       readers = [(''reader_2'', 2)], streamingConsumers = [],
       producerIdCounter = 1, consumerIdCounter = 2,
       clientHeap = [example_client True [0] [1] [2]],
       scHeap = [], nextHandle = 3,
       tasks = [example_connect_response,
                Responded (success (Text ''producer_1'')),
                Responded (success (Text ''consumer_1'')),
                Responded (success (Text ''reader_2''))],
       trace = [(Handler 1, CreateProducer 0 ''t''),
                (Handler 2, Subscribe 0 ''t'' ''s1'' 0),
                (Handler 3, CreateReader 0 ''t''),
                (Handler 3, ConsoleLog ''Created reader reader_2 for t'')] \<rparr>"
  by (simp add: example_resources_def example_connected_eq handler_defs
        example_connection_def example_client_def)

lemma example_streaming_eq:
  "example_streaming =
     \<lparr> mainWindow = True,
       connectedClusters = [(''c1'', example_connection)],
       producers = [], consumers = [], readers = [],
       streamingConsumers = [(''streaming_consumer_1'', 0)],
       producerIdCounter = 0, consumerIdCounter = 1,
       clientHeap = [example_client True [] [0] []],
       scHeap = [\<lparr> consumerId = ''streaming_consumer_1'', consumer = 0, paused = False,
                   stopRequested = False, receiveLoop = Some AwaitReceive \<rparr>],
       nextHandle = 1,
       tasks = [example_connect_response,
                Responded (success (Text ''streaming_consumer_1''))],
       trace = [(Handler 1, Subscribe 0 ''t'' ''s1'' 0), (ReceiveLoop 0, Receive 0 1000)] \<rparr>"
  by (simp add: example_streaming_def example_connected_eq handler_defs
        example_connection_def example_client_def)

lemma digit_val: "d < 10 \<Longrightarrow> of_char (digit_char d) - 48 = d"
  unfolding digit_char_def by (simp split: if_splits)

lemma nat_of_string_snoc:
  "nat_of_string (cs @ [c]) = 10 * nat_of_string cs + (of_char c - 48)"
  by (simp add: nat_of_string_def)

lemma nat_of_string_of_nat: "nat_of_string (string_of_nat n) = n"
proof (induction n rule: string_of_nat.induct)
  case (1 n)
  show ?case
  proof (cases "n < 10")
    case True
    then show ?thesis
      by (simp add: string_of_nat.simps[of n] nat_of_string_def digit_val)
  next
    case False
    with 1 have "nat_of_string (string_of_nat (n div 10)) = n div 10" by simp
    with False show ?thesis
      by (simp add: string_of_nat.simps[of n] nat_of_string_snoc digit_val)
  qed
qed

lemma string_of_nat_inj: "string_of_nat m = string_of_nat n \<Longrightarrow> m = n"
  by (metis nat_of_string_of_nat)

lemma streaming_consumer_id_inj:
  "streaming_consumer_id m = streaming_consumer_id n \<Longrightarrow> m = n"
  by (simp add: streaming_consumer_id_def string_of_nat_inj)

subsection \<open>The cluster registry\<close>

text \<open>
  C5. If \<^verbatim>\<open>cluster:connect\<close> is called while its \<open>clusterId\<close> is in \<open>connectedClusters\<close>,
  the handler answers with the error \<^verbatim>\<open>Cluster <id> is already connected\<close> and changes
  nothing: the state after the call is the state before it with the response added, so
  the map still holds the original connection (with its \<open>connectedAt\<close>, admin and
  client) and no client object has been allocated.
\<close>

theorem connect_already_connected:
  "map_of (connectedClusters s) (ClusterConfig.clusterId cfg) = Some connection \<Longrightarrow>
     cluster_connect cfg now s =
       (Responded (error (''Cluster '' @ ClusterConfig.clusterId cfg @ '' is already connected'')), s)
     \<and> step (Call (ClusterConnect cfg now)) s =
       s\<lparr>tasks := tasks s @
          [Responded (error (''Cluster '' @ ClusterConfig.clusterId cfg
                               @ '' is already connected''))]\<rparr>
     \<and> map_of (connectedClusters (step (Call (ClusterConnect cfg now)) s))
           (ClusterConfig.clusterId cfg) = Some connection
     \<and> clientHeap (step (Call (ClusterConnect cfg now)) s) = clientHeap s"
  by (simp add: cluster_connect_def)

theorem connect_already_connected_witness:
  "map_of (connectedClusters example_connected) (ClusterConfig.clusterId example_config)
     = Some example_connection
   \<and> cluster_connect example_config 200 example_connected =
       (Responded (error ''Cluster c1 is already connected''), example_connected)
   \<and> ClusterConnection.connectedAt
       (the (map_of (connectedClusters (step (Call (ClusterConnect example_config 200))
           example_connected)) ''c1'')) = 100"
proof -
  have present:
    "map_of (connectedClusters example_connected) (ClusterConfig.clusterId example_config)
       = Some example_connection"
    by (simp add: example_connected_eq example_config_def)
  have name: "ClusterConfig.clusterId example_config = ''c1''"
    by (simp add: example_config_def)
  have at: "ClusterConnection.connectedAt example_connection = 100"
    by (simp add: example_connection_def)
  from connect_already_connected [OF present, of 200] present name at
  show ?thesis by simp
qed



subsection \<open>The resource registries\<close>

text \<open>
  C6, as the code has it. For each kind of resource (producer, one-shot consumer,
  reader) and each identifier in its store: the close handler calls the native close
  and leaves the store as it is while the close is pending; when the native close
  resolves, the entry is deleted and the handler answers success; when the native close
  rejects, the store is left unchanged, so the entry stays, and the handler answers
  with the error \<^verbatim>\<open>Failed to close <kind>: <message>\<close>.
\<close>

theorem close_removes_entry_only_when_native_close_resolves:
  "map_of (registry kind s) ident = Some h \<Longrightarrow>
   registry kind (step (Call (close_request kind ident)) s) = registry kind s \<and>
   trace (step (Call (close_request kind ident)) s) =
     trace s @ [(Handler (length (tasks s)), native_close kind h)] \<and>
   registry kind (step (Settle (length (tasks s)) (Resolved ()))
       (step (Call (close_request kind ident)) s))
     = AList.delete ident (registry kind s) \<and>
   map_of (registry kind (step (Settle (length (tasks s)) (Resolved ()))
       (step (Call (close_request kind ident)) s))) ident = None \<and>
   tasks (step (Settle (length (tasks s)) (Resolved ()))
       (step (Call (close_request kind ident)) s)) ! length (tasks s)
     = Responded (success Void) \<and>
   registry kind (step (Settle (length (tasks s)) (Rejected msg))
       (step (Call (close_request kind ident)) s))
     = registry kind s \<and>
   tasks (step (Settle (length (tasks s)) (Rejected msg))
       (step (Call (close_request kind ident)) s)) ! length (tasks s)
     = Responded (error (close_failure kind @ msg))"
  by (cases kind)
     (simp_all add: producer_close_def producer_close_settled_def consumer_close_def
        consumer_close_settled_def closeReader_def closeReader_settled_def resume_task_def
        observe_def AList.delete_conv)

theorem close_removes_entry_only_when_native_close_resolves_witness:
  "map_of (registry Reader example_resources) ''reader_2'' = Some 2 \<and>
   registry Reader (step (Settle 4 (Resolved ()))
       (step (Call (close_request Reader ''reader_2'')) example_resources)) = [] \<and>
   registry Reader (step (Settle 4 (Rejected ''boom''))
       (step (Call (close_request Reader ''reader_2'')) example_resources))
     = [(''reader_2'', 2)]"
proof -
  have present: "map_of (registry Reader example_resources) ''reader_2'' = Some 2"
    by (simp add: example_resources_eq)
  have store: "registry Reader example_resources = [(''reader_2'', 2)]"
    by (simp add: example_resources_eq)
  have n: "length (tasks example_resources) = 4"
    by (simp add: example_resources_eq)
  from close_removes_entry_only_when_native_close_resolves [OF present, of "''boom''"]
    present
  show ?thesis by (simp add: n store AList.delete_eq del: registry.simps close_request.simps)
qed

text \<open>
  C6 as claimed says that a failed native close still removes the entry. It does not:
  after \<open>producer_1\<close> has been created and its native close has rejected, \<open>producer_1\<close>
  is still in \<open>producers\<close>, and the caller has the error.
\<close>

theorem close_failure_keeps_entry_counterexample:
  "map_of (producers (step (Settle 4 (Rejected ''boom''))
       (step (Call (ProducerClose ''producer_1'')) example_resources))) ''producer_1'' = Some 0 \<and>
   tasks (step (Settle 4 (Rejected ''boom''))
       (step (Call (ProducerClose ''producer_1'')) example_resources)) ! 4
     = Responded (error ''Failed to close producer: boom'')"
  by (simp add: example_resources_eq handler_defs)

text \<open>
  C10. \<^verbatim>\<open>consumer:acknowledge\<close> answers success for every identifier in \<open>consumers\<close> and
  every message identifier, and \<^verbatim>\<open>Consumer <id> not found\<close> otherwise; in both cases the
  state is the state before the call with the response added. In particular the trace
  is unchanged: no acknowledge (and no other call) reaches the native consumer.
\<close>

theorem consumer_acknowledge_no_native_call:
  "consumer_acknowledge consId msgId s =
     (if map_of (consumers s) consId = None
      then Responded (error (''Consumer '' @ consId @ '' not found''))
      else Responded (success Void), s) \<and>
   step (Call (ConsumerAcknowledge consId msgId)) s =
     s\<lparr>tasks := tasks s @
        [if map_of (consumers s) consId = None
         then Responded (error (''Consumer '' @ consId @ '' not found''))
         else Responded (success Void)]\<rparr> \<and>
   trace (step (Call (ConsumerAcknowledge consId msgId)) s) = trace s"
  by (auto simp add: consumer_acknowledge_def split: option.splits)

theorem consumer_acknowledge_no_native_call_witness:
  "tasks (step (Call (ConsumerAcknowledge ''consumer_1'' ''1:0:0'')) example_resources) ! 4
     = Responded (success Void) \<and>
   tasks (step (Call (ConsumerAcknowledge ''consumer_9'' ''1:0:0'')) example_resources) ! 4
     = Responded (error ''Consumer consumer_9 not found'') \<and>
   trace (step (Call (ConsumerAcknowledge ''consumer_1'' ''1:0:0'')) example_resources)
     = trace example_resources"
  using consumer_acknowledge_no_native_call [of "''consumer_1''" "''1:0:0''" example_resources]
    consumer_acknowledge_no_native_call [of "''consumer_9''" "''1:0:0''" example_resources]
  by (simp add: example_resources_eq)



subsection \<open>Shutdown\<close>

lemma readers_quit_producers: "readers (quit_producers err s) = readers s"
  by (simp add: quit_producers_def observe_def)

lemma readers_quit_consumers: "readers (quit_consumers err s) = readers s"
  by (simp add: quit_consumers_def observe_def)

lemma readers_quit_streaming: "readers (quit_streaming err xs s) = readers s"
  by (induction xs arbitrary: s) (auto simp: observe_def Let_def)

lemma readers_quit_clusters: "readers (quit_clusters err cerr xs s) = readers s"
  by (induction xs arbitrary: s) (auto simp: observe_def Let_def)

text \<open>The \<^verbatim>\<open>before-quit\<close> handler never touches the \<open>readers\<close> map.\<close>

lemma readers_before_quit: "readers (before_quit err cerr s) = readers s"
  by (simp add: before_quit_def quit_connectedClusters_def quit_streamingConsumers_def
      readers_quit_producers readers_quit_consumers readers_quit_streaming
      readers_quit_clusters)

text \<open>The part of C7 that holds: when the cluster connections start to be closed, the
  producers, the one-shot consumers and the streaming consumers have been closed and
  their maps cleared, in this order.\<close>

lemma quit_order:
  "producers (quit_streamingConsumers err (quit_consumers err (quit_producers err s))) = [] \<and>
   consumers (quit_streamingConsumers err (quit_consumers err (quit_producers err s))) = [] \<and>
   streamingConsumers (quit_streamingConsumers err (quit_consumers err (quit_producers err s)))
     = []"
proof -
  have p: "producers (quit_streaming err xs t) = producers t" for xs t
    by (induction xs arbitrary: t) (auto simp: observe_def Let_def)
  have c: "consumers (quit_streaming err xs t) = consumers t" for xs t
    by (induction xs arbitrary: t) (auto simp: observe_def Let_def)
  show ?thesis
    by (simp add: quit_streamingConsumers_def quit_consumers_def quit_producers_def
          observe_def p c)
qed

text \<open>
  C7, at an input where the code departs from it. In \<open>example_resources\<close> the cluster
  \<open>c1\<close> has a producer, a one-shot consumer and the reader \<open>reader_2\<close>. The shutdown
  closes the producer and the consumer and then the cluster (whose aggregate close
  closes the three native objects and the native client); the \<open>readers\<close> map is neither
  closed nor cleared by the handler, so \<open>reader_2\<close> is registered when the cluster's
  close is called, and still is when the handler ends.
\<close>

theorem before_quit_leaves_readers_registered:
  "readers (quit_streamingConsumers (\<lambda>_. None) (quit_consumers (\<lambda>_. None)
       (quit_producers (\<lambda>_. None) example_resources))) = [(''reader_2'', 2)] \<and>
   trace (before_quit (\<lambda>_. None) (\<lambda>_. None) example_resources) =
     trace example_resources @
     [(BeforeQuit, CloseProducer 0), (BeforeQuit, CloseConsumer 1),
      (BeforeQuit, CloseProducer 0), (BeforeQuit, CloseConsumer 1),
      (BeforeQuit, CloseReader 2), (BeforeQuit, CloseClient 0)] \<and>
   readers (before_quit (\<lambda>_. None) (\<lambda>_. None) example_resources) = [(''reader_2'', 2)]"
  by (simp add: example_resources_eq example_connection_def example_client_def
        before_quit_def quit_producers_def quit_consumers_def quit_streamingConsumers_def
        quit_connectedClusters_def client_close_def observe_def close_begin_def
        close_after_producers_def close_after_consumers_def close_after_readers_def
        close_finish_def List.map_filter_def)

subsection \<open>The receive loop\<close>

text \<open>
  C9. \<^verbatim>\<open>receive_timeout\<close> and \<^verbatim>\<open>readNext_timeout\<close> return \<^verbatim>\<open>null\<close> for every rejection of
  the native call, whatever the error. In the receive loop a rejected receive therefore
  continues at the loop head, exactly as a timeout does: two rejections with different
  errors leave the loop in the same state with the same observations, the loop is not
  in its backoff sleep, nothing is written to the console, and unless the consumer is
  paused no timer is set.
\<close>

theorem receive_timeout_null_on_any_error:
  "receive_timeout (Rejected e) = None \<and> readNext_timeout (Rejected e) = None \<and>
   loop_resume window (Some AwaitReceive) (ReceiveSettles (Rejected e)) sc =
     (fst (loop_head sc), ReceiveReturned None # snd (loop_head sc)) \<and>
   loop_resume window (Some AwaitReceive) (ReceiveSettles (Rejected e)) sc =
     loop_resume window (Some AwaitReceive) (ReceiveSettles (Rejected e')) sc \<and>
   receiveLoop (fst (loop_resume window (Some AwaitReceive) (ReceiveSettles (Rejected e)) sc))
     \<noteq> Some AwaitBackoff \<and>
   ConsoleError txt \<notin>
     set (snd (loop_resume window (Some AwaitReceive) (ReceiveSettles (Rejected e)) sc)) \<and>
   ConsoleLog txt \<notin>
     set (snd (loop_resume window (Some AwaitReceive) (ReceiveSettles (Rejected e)) sc)) \<and>
   (\<not> paused sc \<longrightarrow>
      SetTimeout ms \<notin>
        set (snd (loop_resume window (Some AwaitReceive) (ReceiveSettles (Rejected e)) sc)))"
  by (simp add: receive_timeout_def readNext_timeout_def loop_head_def)

theorem receive_timeout_null_on_any_error_witness:
  "\<not> paused (scHeap example_streaming ! 0) \<and>
   receiveLoop (scHeap example_streaming ! 0) = Some AwaitReceive \<and>
   SetTimeout 100 \<notin>
     set (snd (loop_resume True (Some AwaitReceive) (ReceiveSettles (Rejected ''ConnectError''))
            (scHeap example_streaming ! 0))) \<and>
   loop_resume True (Some AwaitReceive) (ReceiveSettles (Rejected ''ConnectError''))
       (scHeap example_streaming ! 0) =
     loop_resume True (Some AwaitReceive) (ReceiveSettles (Rejected ''TimeOut''))
       (scHeap example_streaming ! 0)"
proof -
  have running: "\<not> paused (scHeap example_streaming ! 0)"
    by (simp add: example_streaming_eq)
  have at: "receiveLoop (scHeap example_streaming ! 0) = Some AwaitReceive"
    by (simp add: example_streaming_eq)
  from receive_timeout_null_on_any_error
         [of "''ConnectError''" True "scHeap example_streaming ! 0" "''TimeOut''" "''x''" 100]
       running at
  show ?thesis by blast
qed

subsection \<open>The invariant of the streaming consumers\<close>

text \<open>
  The invariant holds initially and is kept by every event. The segments that are
  foreign to the streaming consumers keep it for one common reason; pause, stop, the
  second half of start, the join and the loop are treated one by one.
\<close>

lemma handler_entries [simp]: "list_all handler_entry (map (Pair (Handler n)) obs)"
  by (induction obs) simp_all

lemma issued_mono: "issued s c \<Longrightarrow> consumerIdCounter s \<le> consumerIdCounter s' \<Longrightarrow> issued s' c"
  unfolding issued_def using le_trans by blast

lemma task_ok_frame:
  "task_ok s t \<Longrightarrow> scHeap s' = scHeap s \<Longrightarrow> consumerIdCounter s \<le> consumerIdCounter s' \<Longrightarrow> task_ok s' t"
  by (cases t) (auto intro: issued_mono)

lemma task_ok_tasks_upd [simp]: "task_ok (s\<lparr>tasks := ts\<rparr>) t = task_ok s t"
  by (cases t) (auto simp: issued_def)

lemma not_supervisor_task_ok: "\<not> supervisor_task t \<Longrightarrow> task_ok s t"
  by (cases t) auto

lemma issued_tasks_upd [simp]: "issued (s\<lparr>tasks := ts\<rparr>) c = issued s c"
  by (simp add: issued_def)

lemma inv_foreign:
  assumes inv: "supervisor_inv s" and fr: "foreign s r"
    and ts: "\<forall>n < length ts. ts ! n = fst r \<or> (n < length (tasks s) \<and> ts ! n = tasks s ! n)"
  shows "supervisor_inv ((snd r)\<lparr>tasks := ts\<rparr>)"
proof -
  from fr have heap: "scHeap (snd r) = scHeap s"
    and reg: "streamingConsumers (snd r) = streamingConsumers s"
    and cnt: "consumerIdCounter s \<le> consumerIdCounter (snd r)"
    and harmless: "\<not> supervisor_task (fst r)"
    by (simp_all add: foreign_def)
  have "task_ok (snd r) (ts ! n)" if "n < length ts" for n
  proof -
    from ts that consider "ts ! n = fst r" | "n < length (tasks s)" "ts ! n = tasks s ! n"
      by blast
    then show ?thesis
    proof cases
      case 1
      with harmless show ?thesis by (simp add: not_supervisor_task_ok)
    next
      case 2
      with inv have "task_ok s (ts ! n)" by (simp add: supervisor_inv_def)
      then show ?thesis using heap cnt by (rule task_ok_frame)
    qed
  qed
  moreover have "a < length (scHeap (snd r)) \<and> issued (snd r) c"
    if "map_of (streamingConsumers (snd r)) c = Some a" for c a
    using inv that heap reg cnt issued_mono unfolding supervisor_inv_def by metis
  moreover have "receiveLoop (scHeap (snd r) ! a) \<noteq> None" if "a < length (scHeap (snd r))" for a
    using inv that heap unfolding supervisor_inv_def by metis
  ultimately show ?thesis by (simp add: supervisor_inv_def)
qed

lemma inv_foreign_append:
  assumes "supervisor_inv s" "foreign s r"
  shows "supervisor_inv ((snd r)\<lparr>tasks := tasks (snd r) @ [fst r]\<rparr>)"
proof (rule inv_foreign[OF assms])
  from assms(2) have "tasks (snd r) = tasks s" by (simp add: foreign_def)
  then show "\<forall>n<length (tasks (snd r) @ [fst r]).
       (tasks (snd r) @ [fst r]) ! n = fst r \<or>
       n < length (tasks s) \<and> (tasks (snd r) @ [fst r]) ! n = tasks s ! n"
    by (auto simp: nth_append)
qed

lemma inv_foreign_update:
  assumes "supervisor_inv s" "foreign s r"
  shows "supervisor_inv ((snd r)\<lparr>tasks := (tasks (snd r))[n := fst r]\<rparr>)"
proof (rule inv_foreign[OF assms])
  from assms(2) have "tasks (snd r) = tasks s" by (simp add: foreign_def)
  then show "\<forall>k<length ((tasks (snd r))[n := fst r]).
       (tasks (snd r))[n := fst r] ! k = fst r \<or>
       k < length (tasks s) \<and> (tasks (snd r))[n := fst r] ! k = tasks s ! k"
    by (metis length_list_update nth_list_update_eq nth_list_update_neq)
qed

lemma foreign_handlers:
  "foreign s (cluster_connect cfg now s)"
  "foreign s (cluster_disconnect cid n s)"
  "foreign s (producer_create cid topic n s)"
  "foreign s (producer_create_settled ref outcome s)"
  "foreign s (producer_close pid n s)"
  "foreign s (producer_close_settled pid outcome s)"
  "foreign s (consumer_create cid topic sub ty n s)"
  "foreign s (consumer_create_settled ref outcome s)"
  "foreign s (consumer_acknowledge c m s)"
  "foreign s (consumer_close c n s)"
  "foreign s (consumer_close_settled c outcome s)"
  "foreign s (browseMessages cid topic n s)"
  "foreign s (browseMessages_settled ref topic outcome n s)"
  "foreign s (closeReader rid n s)"
  "foreign s (closeReader_settled rid outcome n s)"
  "foreign s (startConsumer cid topic sub ty n s)"
  "foreign s (disconnect_client_settled cid ref outcome s)"
  "foreign s (disconnect_all_settled cid ref phase fs n s)"
  by (auto simp: foreign_def cluster_connect_def cluster_disconnect_def producer_create_def
        producer_create_settled_def producer_close_def producer_close_settled_def
        consumer_create_def consumer_create_settled_def consumer_acknowledge_def
        consumer_close_def consumer_close_settled_def browseMessages_def
        browseMessages_settled_def closeReader_def closeReader_settled_def startConsumer_def
        disconnect_client_settled_def disconnect_all_settled_def cluster_disconnect_done_def
        not_connected_def observe_def Let_def
        split: option.splits settled.splits close_phase.splits prod.splits)


lemma nth_upd: "xs[i := x] ! j = (if i = j \<and> i < length xs then x else xs ! j)"
  by (cases "i < length xs") (auto simp: nth_list_update list_update_beyond)

lemma task_ok_cong:
  "scHeap s' = scHeap s \<Longrightarrow> consumerIdCounter s' = consumerIdCounter s \<Longrightarrow>
   task_ok s' t = task_ok s t"
  by (cases t) (simp_all add: issued_def)

lemma inv_cong:
  "scHeap s' = scHeap s \<Longrightarrow> streamingConsumers s' = streamingConsumers s \<Longrightarrow>
   consumerIdCounter s' = consumerIdCounter s \<Longrightarrow> tasks s' = tasks s \<Longrightarrow>
   supervisor_inv s' = supervisor_inv s"
  by (simp add: supervisor_inv_def issued_def task_ok_cong[of s' s])

lemma inv_observe [simp]: "supervisor_inv (observe who obs s) = supervisor_inv s"
  by (rule inv_cong) (simp_all add: observe_def)

lemma task_ok_observe [simp]: "task_ok (observe who obs s) t = task_ok s t"
  by (rule task_ok_cong) (simp_all add: observe_def)

lemma observe_fields [simp]:
  "tasks (observe who obs s) = tasks s"
  "scHeap (observe who obs s) = scHeap s"
  "streamingConsumers (observe who obs s) = streamingConsumers s"
  "consumerIdCounter (observe who obs s) = consumerIdCounter s"
  "mainWindow (observe who obs s) = mainWindow s"
  by (simp_all add: observe_def)

lemma issued_observe [simp]: "issued (observe who obs s) c = issued s c"
  by (simp add: issued_def)


lemma inv_add_task:
  "supervisor_inv s \<Longrightarrow> task_ok s t \<Longrightarrow> supervisor_inv (s\<lparr>tasks := tasks s @ [t]\<rparr>)"
  by (auto simp: supervisor_inv_def nth_append less_Suc_eq)

lemma inv_set_task:
  "supervisor_inv s \<Longrightarrow> task_ok s t \<Longrightarrow> supervisor_inv (s\<lparr>tasks := (tasks s)[n := t]\<rparr>)"
  by (auto simp: supervisor_inv_def nth_upd)

lemma inv_resume:
  "supervisor_inv (snd r) \<Longrightarrow> task_ok (snd r) (fst r) \<Longrightarrow> tasks (snd r) = ts \<Longrightarrow>
   supervisor_inv ((snd r)\<lparr>tasks := ts[n := fst r]\<rparr>)"
  using inv_set_task[of "snd r" "fst r" n] by auto

lemma tasks_same: "tasks s ! n = t \<Longrightarrow> s\<lparr>tasks := (tasks s)[n := t]\<rparr> = s"
  by auto

lemma task_ok_heap_upd:
  assumes "task_ok s t"
    and "receiveLoop (scHeap s ! a) = Some LoopReturned \<longrightarrow> receiveLoop x = Some LoopReturned"
  shows "task_ok (s\<lparr>scHeap := (scHeap s)[a := x]\<rparr>) t"
  using assms by (cases t) (auto simp: issued_def nth_upd)

lemma inv_heap_upd:
  assumes inv: "supervisor_inv s" and started: "receiveLoop x \<noteq> None"
    and stable: "receiveLoop (scHeap s ! a) = Some LoopReturned \<longrightarrow> receiveLoop x = Some LoopReturned"
  shows "supervisor_inv (s\<lparr>scHeap := (scHeap s)[a := x]\<rparr>)"
proof -
  have "task_ok (s\<lparr>scHeap := (scHeap s)[a := x]\<rparr>) (tasks s ! n)" if "n < length (tasks s)" for n
    using inv that stable by (intro task_ok_heap_upd) (simp_all add: supervisor_inv_def)
  with inv started show ?thesis
    by (auto simp: supervisor_inv_def nth_upd issued_def)
qed

lemma loop_head_started: "receiveLoop (fst (loop_head sc)) \<noteq> None"
  by (simp add: loop_head_def)

lemma loop_resume_returned:
  "receiveLoop sc = Some LoopReturned \<Longrightarrow> startConsumerLoop_resume w ev sc = (sc, [])"
  by (simp add: startConsumerLoop_resume_def)

lemma loop_resume_started:
  "receiveLoop sc \<noteq> None \<Longrightarrow> receiveLoop (fst (startConsumerLoop_resume w ev sc)) \<noteq> None"
  unfolding startConsumerLoop_resume_def
  by (cases "(w, receiveLoop sc, ev, sc)" rule: loop_resume.cases)
     (auto simp: loop_head_def split: option.splits)

lemma inv_loop:
  assumes "supervisor_inv s"
  shows "supervisor_inv (step (Loop a ev) s)"
proof (cases "a < length (scHeap s)")
  case True
  with assms have "receiveLoop (scHeap s ! a) \<noteq> None" by (simp add: supervisor_inv_def)
  then have "receiveLoop (fst (startConsumerLoop_resume (mainWindow s) ev (scHeap s ! a))) \<noteq> None"
    by (rule loop_resume_started)
  moreover have "receiveLoop (scHeap s ! a) = Some LoopReturned \<longrightarrow>
      receiveLoop (fst (startConsumerLoop_resume (mainWindow s) ev (scHeap s ! a))) = Some LoopReturned"
    by (simp add: loop_resume_returned)
  ultimately show ?thesis using assms True by (simp add: Let_def inv_heap_upd)
next
  case False
  with assms show ?thesis by simp
qed

lemma inv_pauseConsumer:
  assumes "supervisor_inv s"
  shows "supervisor_inv (snd (pauseConsumer c s))" and "task_ok s' (fst (pauseConsumer c s))"
proof -
  show "supervisor_inv (snd (pauseConsumer c s))"
  proof (cases "map_of (streamingConsumers s) c")
    case None
    with assms show ?thesis by (simp add: pauseConsumer_def)
  next
    case (Some a)
    with assms have "a < length (scHeap s)" "receiveLoop (scHeap s ! a) \<noteq> None"
      by (auto simp: supervisor_inv_def)
    with assms Some show ?thesis by (simp add: pauseConsumer_def inv_heap_upd)
  qed
  show "task_ok s' (fst (pauseConsumer c s))"
    by (simp add: pauseConsumer_def split: option.splits)
qed

lemma inv_stopConsumer:
  assumes "supervisor_inv s"
  shows "supervisor_inv (snd (stopConsumer c n s)) \<and>
         task_ok (snd (stopConsumer c n s)) (fst (stopConsumer c n s))"
proof (cases "map_of (streamingConsumers s) c")
  case None
  with assms show ?thesis by (simp add: stopConsumer_def)
next
  case (Some a)
  with assms have a: "a < length (scHeap s)" "receiveLoop (scHeap s ! a) \<noteq> None" "issued s c"
    by (auto simp: supervisor_inv_def)
  with assms Some show ?thesis
    by (auto simp: stopConsumer_def Let_def inv_heap_upd issued_def)
qed

lemma inv_startConsumer_settled:
  assumes inv: "supervisor_inv s"
  shows "supervisor_inv (snd (startConsumer_settled ref outcome s)) \<and>
         \<not> supervisor_task (fst (startConsumer_settled ref outcome s)) \<and>
         tasks (snd (startConsumer_settled ref outcome s)) = tasks s"
proof (cases outcome)
  case (Rejected msg)
  with assms show ?thesis by (simp add: startConsumer_settled_def)
next
  case (Resolved u)
  define newId where "newId = streaming_consumer_id (consumerIdCounter s + 1)"
  define sc where "sc = fst (loop_head \<lparr> consumerId = newId, consumer = nextHandle s,
      paused = False, stopRequested = False, receiveLoop = None \<rparr>)"
  define s' where "s' = snd (startConsumer_settled ref outcome s)"
  have heap: "scHeap s' = scHeap s @ [sc]"
    and reg: "streamingConsumers s' = AList.update newId (length (scHeap s)) (streamingConsumers s)"
    and cnt: "consumerIdCounter s' = consumerIdCounter s + 1"
    and ts: "tasks s' = tasks s"
    and t: "fst (startConsumer_settled ref outcome s) = Responded (success (Text newId))"
    using Resolved
    by (simp_all add: s'_def sc_def newId_def startConsumer_settled_def Let_def observe_def)
  have old: "issued s c \<Longrightarrow> issued s' c" for c
    using issued_mono[of s c s'] by (simp add: cnt)
  have new: "issued s' newId"
    unfolding issued_def newId_def cnt by blast
  have started: "receiveLoop sc \<noteq> None"
    unfolding sc_def by (rule loop_head_started)
  have i1: "receiveLoop (scHeap s' ! a) \<noteq> None" if "a < length (scHeap s')" for a
    using that inv started by (auto simp: heap nth_append supervisor_inv_def)
  have i2: "a < length (scHeap s') \<and> issued s' c"
    if "map_of (streamingConsumers s') c = Some a" for c a
    using that inv old new
    by (auto simp: reg heap AList.update_conv supervisor_inv_def less_Suc_eq split: if_splits)
  have i3: "task_ok s' (tasks s' ! n)" if "n < length (tasks s')" for n
  proof -
    from that inv have ok: "task_ok s (tasks s ! n)" by (simp add: ts supervisor_inv_def)
    then show ?thesis
      using old by (cases "tasks s ! n") (auto simp: ts heap nth_append)
  qed
  from i1 i2 i3 have "supervisor_inv s'" unfolding supervisor_inv_def by blast
  with ts t show ?thesis by (simp add: s'_def)
qed

lemma inv_stopConsumer_settled:
  assumes inv: "supervisor_inv s"
  shows "supervisor_inv (snd (stopConsumer_settled c outcome s)) \<and>
         \<not> supervisor_task (fst (stopConsumer_settled c outcome s)) \<and>
         tasks (snd (stopConsumer_settled c outcome s)) = tasks s"
proof (cases outcome)
  case (Rejected msg)
  with assms show ?thesis by (simp add: stopConsumer_settled_def)
next
  case (Resolved u)
  have "task_ok (s\<lparr>streamingConsumers := m\<rparr>) t = task_ok s t" for m t
    by (rule task_ok_cong) simp_all
  with inv Resolved show ?thesis
    by (auto simp: stopConsumer_settled_def supervisor_inv_def AList.delete_conv issued_def
          split: if_splits)
qed

lemma inv_joined:
  assumes inv: "supervisor_inv s" and n: "n < length (tasks s)"
  shows "supervisor_inv (snd (joined_task (tasks s ! n) n s)) \<and>
         task_ok (snd (joined_task (tasks s ! n) n s)) (fst (joined_task (tasks s ! n) n s)) \<and>
         tasks (snd (joined_task (tasks s ! n) n s)) = tasks s"
proof -
  from inv n have ok: "task_ok s (tasks s ! n)" by (simp add: supervisor_inv_def)
  then show ?thesis using inv
    by (cases "tasks s ! n") (auto simp: stopConsumer_joined_def)
qed

lemma inv_step:
  assumes inv: "supervisor_inv s"
  shows "supervisor_inv (step e s)"
proof (cases e)
  case (Call req)
  show ?thesis
  proof (cases req)
    case (MessagesPauseConsumer c)
    with Call inv show ?thesis
      by (simp add: Let_def inv_add_task inv_pauseConsumer)
  next
    case (MessagesStopConsumer c)
    with Call inv show ?thesis
      by (simp add: Let_def inv_add_task inv_stopConsumer)
  qed (use Call inv in \<open>simp_all add: Let_def inv_foreign_append foreign_handlers\<close>)
next
  case (Settle n outcome)
  show ?thesis
  proof (cases "n < length (tasks s)")
    case False
    with Settle inv show ?thesis by (simp add: resume_task_def)
  next
    case True
    from inv True have ok: "task_ok s (tasks s ! n)" by (simp add: supervisor_inv_def)
    show ?thesis
    proof (cases "tasks s ! n")
      case (Disconnect_await cid ref phase)
      with Settle True inv ok show ?thesis
        by (cases phase)
           (simp_all add: resume_task_def Let_def inv_foreign_update foreign_handlers
              tasks_same)
    next
      case (StartConsumer_await ref)
      with Settle True inv_startConsumer_settled[OF inv, of ref outcome] show ?thesis
        by (simp add: resume_task_def Let_def inv_resume not_supervisor_task_ok)
    next
      case (StopConsumer_close a c)
      with Settle True inv_stopConsumer_settled[OF inv, of c outcome] show ?thesis
        by (simp add: resume_task_def Let_def inv_resume not_supervisor_task_ok)
    qed (use Settle True inv in
          \<open>simp_all add: resume_task_def Let_def inv_foreign_update foreign_handlers
             tasks_same\<close>)
  qed
next
  case (AllSettled n failures)
  show ?thesis
  proof (cases "n < length (tasks s)")
    case False
    with AllSettled inv show ?thesis by (simp add: resume_task_def)
  next
    case True
    show ?thesis
      by (cases "tasks s ! n")
         (use AllSettled True inv in
           \<open>simp_all add: resume_task_def Let_def inv_foreign_update foreign_handlers
              tasks_same\<close>)
  qed
next
  case (Joined n)
  show ?thesis
  proof (cases "n < length (tasks s)")
    case False
    with Joined inv show ?thesis by (simp add: resume_task_def)
  next
    case True
    with Joined inv_joined[OF inv True] show ?thesis
      by (simp add: resume_task_def Let_def inv_resume)
  qed
next
  case (Loop a ev)
  with inv show ?thesis by (simp only: inv_loop)
next
  case WindowCreated
  with inv show ?thesis by (simp add: inv_cong[of "s\<lparr>mainWindow := True\<rparr>" s])
next
  case WindowClosed
  with inv show ?thesis by (simp add: inv_cong[of "s\<lparr>mainWindow := False\<rparr>" s])
qed

lemma inv_initial: "supervisor_inv initial_state"
  by (simp add: supervisor_inv_def initial_state_def)

lemma inv_run: "supervisor_inv s \<Longrightarrow> supervisor_inv (run evs s)"
  by (induction evs arbitrary: s) (simp_all add: inv_step)

subsection \<open>What one event does to the streaming consumers\<close>

text \<open>
  Every event is of one of five kinds: it leaves the streaming consumers alone (and
  adds only handler entries to the trace); it sets a flag of one object; it creates an
  object under the next identifier, whose loop issues its first receive; it deletes an
  entry of the map; or it resumes one loop.
\<close>

lemma foreign_idle: "\<not> supervisor_task t \<Longrightarrow> foreign s (t, s)"
  by (simp add: foreign_def)

lemma step_cases [case_names Foreign Flags Start Delete Loop]:
  obtains
    (Foreign) obs where
      "scHeap (step e s) = scHeap s" "streamingConsumers (step e s) = streamingConsumers s"
      "consumerIdCounter s \<le> consumerIdCounter (step e s)"
      "trace (step e s) = trace s @ obs" "list_all handler_entry obs"
  | (Flags) a x obs where
      "a < length (scHeap s)" "scHeap (step e s) = (scHeap s)[a := x]"
      "x = (scHeap s ! a)\<lparr>paused := True\<rparr> \<or> x = (scHeap s ! a)\<lparr>stopRequested := True\<rparr>"
      "streamingConsumers (step e s) = streamingConsumers s"
      "consumerIdCounter (step e s) = consumerIdCounter s"
      "trace (step e s) = trace s @ obs" "list_all handler_entry obs"
  | (Start) x where
      "scHeap (step e s) = scHeap s @ [x]"
      "paused x = False" "stopRequested x = False" "receiveLoop x = Some AwaitReceive"
      "streamingConsumers (step e s) =
         AList.update (streaming_consumer_id (consumerIdCounter s + 1)) (length (scHeap s))
           (streamingConsumers s)"
      "consumerIdCounter (step e s) = consumerIdCounter s + 1"
      "trace (step e s) = trace s @ [(ReceiveLoop (length (scHeap s)), Receive (consumer x) 1000)]"
  | (Delete) c where
      "scHeap (step e s) = scHeap s"
      "streamingConsumers (step e s) = AList.delete c (streamingConsumers s)"
      "consumerIdCounter (step e s) = consumerIdCounter s"
      "trace (step e s) = trace s"
  | (Loop) a ev where
      "e = Loop a ev" "a < length (scHeap s)"
      "scHeap (step e s) =
         (scHeap s)[a := fst (startConsumerLoop_resume (mainWindow s) ev (scHeap s ! a))]"
      "streamingConsumers (step e s) = streamingConsumers s"
      "consumerIdCounter (step e s) = consumerIdCounter s"
      "trace (step e s) = trace s @
         map (Pair (ReceiveLoop a)) (snd (startConsumerLoop_resume (mainWindow s) ev (scHeap s ! a)))"
proof -
  have same: thesis
    if "scHeap (step e s) = scHeap s" "streamingConsumers (step e s) = streamingConsumers s"
       "consumerIdCounter (step e s) = consumerIdCounter s" "trace (step e s) = trace s"
    using that Foreign[of "[]"] by auto
  have fr_app: thesis if "foreign s r" "step e s = (snd r)\<lparr>tasks := tasks (snd r) @ [fst r]\<rparr>" for r
    using that Foreign unfolding foreign_def by auto
  have fr_upd: thesis if "foreign s r" "step e s = (snd r)\<lparr>tasks := (tasks (snd r))[n := fst r]\<rparr>" for r n
    using that Foreign unfolding foreign_def by auto
  show thesis
  proof (cases e)
    case (Call req)
    have others: thesis
      if "\<And>c. req \<noteq> MessagesPauseConsumer c" "\<And>c. req \<noteq> MessagesStopConsumer c"
    proof (rule fr_app)
      show "foreign s (handle_call req (length (tasks s)) s)"
        using that by (cases req) (auto simp: foreign_handlers)
      show "step e s = (snd (handle_call req (length (tasks s)) s))
              \<lparr>tasks := tasks (snd (handle_call req (length (tasks s)) s))
                         @ [fst (handle_call req (length (tasks s)) s)]\<rparr>"
        using Call by (simp add: Let_def)
    qed
    show ?thesis
    proof (cases req)
      case (MessagesPauseConsumer c)
      show ?thesis
      proof (cases "map_of (streamingConsumers s) c")
        case None
        with Call MessagesPauseConsumer show ?thesis
          by (intro same) (simp_all add: pauseConsumer_def)
      next
        case (Some a)
        show ?thesis
        proof (cases "a < length (scHeap s)")
          case True
          with Some Call MessagesPauseConsumer show ?thesis
            by (intro Flags[of a "(scHeap s ! a)\<lparr>paused := True\<rparr>" "[]"])
               (simp_all add: pauseConsumer_def)
        next
          case False
          with Some Call MessagesPauseConsumer show ?thesis
            by (intro Foreign[of "[]"]) (simp_all add: pauseConsumer_def list_update_beyond)
        qed
      qed
    next
      case (MessagesStopConsumer c)
      show ?thesis
      proof (cases "map_of (streamingConsumers s) c")
        case None
        with Call MessagesStopConsumer show ?thesis
          by (intro same) (simp_all add: stopConsumer_def)
      next
        case (Some a)
        show ?thesis
        proof (cases "a < length (scHeap s)")
          case True
          with Some Call MessagesStopConsumer show ?thesis
            by (intro Flags[of a "(scHeap s ! a)\<lparr>stopRequested := True\<rparr>"
                  "if receiveLoop (scHeap s ! a) \<noteq> None then []
                   else [(Handler (length (tasks s)), CloseConsumer (consumer (scHeap s ! a)))]"])
               (simp_all add: stopConsumer_def Let_def observe_def)
        next
          case False
          with Some Call MessagesStopConsumer show ?thesis
            by (intro Foreign[of
                  "if receiveLoop (scHeap s ! a) \<noteq> None then []
                   else [(Handler (length (tasks s)), CloseConsumer (consumer (scHeap s ! a)))]"])
               (simp_all add: stopConsumer_def Let_def observe_def list_update_beyond)
        qed
      qed
    qed (rule others; simp)+
  next
    case (Settle n outcome)
    show ?thesis
    proof (cases "n < length (tasks s)")
      case False
      with Settle show ?thesis by (intro same) (simp_all add: resume_task_def)
    next
      case True
      have others: thesis
        if "\<And>ref. tasks s ! n \<noteq> StartConsumer_await ref"
           "\<And>a c. tasks s ! n \<noteq> StopConsumer_close a c"
           "\<And>a c. tasks s ! n \<noteq> StopConsumer_join a c"
      proof (rule fr_upd)
        show "foreign s (settle_task (tasks s ! n) outcome n s)"
          using that
          by (cases "(tasks s ! n, outcome, n, s)" rule: settle_task.cases)
             (auto simp: foreign_handlers foreign_idle)
        show "step e s = (snd (settle_task (tasks s ! n) outcome n s))
                \<lparr>tasks := (tasks (snd (settle_task (tasks s ! n) outcome n s)))
                           [n := fst (settle_task (tasks s ! n) outcome n s)]\<rparr>"
          using Settle True by (simp add: resume_task_def Let_def)
      qed
      show ?thesis
      proof (cases "tasks s ! n")
        case (StopConsumer_join a c)
        with Settle True show ?thesis
          by (intro same) (simp_all add: resume_task_def tasks_same)
      next
        case (StartConsumer_await ref)
        show ?thesis
        proof (cases outcome)
          case (Rejected msg)
          with Settle True StartConsumer_await show ?thesis
            by (intro same) (simp_all add: resume_task_def startConsumer_settled_def)
        next
          case (Resolved u)
          with Settle True StartConsumer_await show ?thesis
            by (intro Start[of "fst (loop_head \<lparr> consumerId =
                    streaming_consumer_id (consumerIdCounter s + 1), consumer = nextHandle s,
                    paused = False, stopRequested = False, receiveLoop = None \<rparr>)"])
               (simp_all add: resume_task_def startConsumer_settled_def Let_def observe_def
                  loop_head_def)
        qed
      next
        case (StopConsumer_close a c)
        show ?thesis
        proof (cases outcome)
          case (Rejected msg)
          with Settle True StopConsumer_close show ?thesis
            by (intro same) (simp_all add: resume_task_def stopConsumer_settled_def)
        next
          case (Resolved u)
          with Settle True StopConsumer_close show ?thesis
            by (intro Delete[of c]) (simp_all add: resume_task_def stopConsumer_settled_def)
        qed
      qed (rule others; simp)+
    qed
  next
    case (AllSettled n failures)
    show ?thesis
    proof (cases "n < length (tasks s)")
      case False
      with AllSettled show ?thesis by (intro same) (simp_all add: resume_task_def)
    next
      case True
      show ?thesis
      proof (cases "supervisor_task (tasks s ! n)")
        case sup: True
        with AllSettled True show ?thesis
          by (cases "tasks s ! n"; intro same) (simp_all add: resume_task_def tasks_same)
      next
        case False
        show ?thesis
        proof (rule fr_upd)
          show "foreign s (all_settled_task (tasks s ! n) failures n s)"
            using False
            by (cases "tasks s ! n") (simp_all add: foreign_handlers foreign_idle)
          show "step e s = (snd (all_settled_task (tasks s ! n) failures n s))
                  \<lparr>tasks := (tasks (snd (all_settled_task (tasks s ! n) failures n s)))
                             [n := fst (all_settled_task (tasks s ! n) failures n s)]\<rparr>"
            using AllSettled True by (simp add: resume_task_def Let_def)
        qed
      qed
    qed
  next
    case (Joined n)
    show ?thesis
    proof (cases "n < length (tasks s)")
      case False
      with Joined show ?thesis by (intro same) (simp_all add: resume_task_def)
    next
      case True
      show ?thesis
      proof (cases "tasks s ! n")
        case (StopConsumer_join a c)
        with Joined True show ?thesis
          by (intro Foreign[of "if receiveLoop (scHeap s ! a) = Some LoopReturned
                then [(Handler n, CloseConsumer (consumer (scHeap s ! a)))] else []"])
             (simp_all add: resume_task_def stopConsumer_joined_def observe_def)
      qed (intro same; use Joined True in \<open>simp add: resume_task_def tasks_same\<close>)+
    qed
  next
    case (Loop a ev)
    show ?thesis
    proof (cases "a < length (scHeap s)")
      case True
      with Loop show ?thesis
        by (intro that(5)[of a ev]) (simp_all add: Let_def observe_def)
    next
      case False
      with Loop show ?thesis by (intro same) simp_all
    qed
  next
    case WindowCreated
    then show ?thesis by (intro same) simp_all
  next
    case WindowClosed
    then show ?thesis by (intro same) simp_all
  qed
qed

subsection \<open>Traces of the receive loops\<close>

lemma map_filter_app: "List.map_filter f (xs @ ys) = List.map_filter f xs @ List.map_filter f ys"
  by (simp add: List.map_filter_def)

lemma projections_append [simp]:
  "pushed_by a (xs @ ys) = pushed_by a xs @ pushed_by a ys"
  "received_by a (xs @ ys) = received_by a xs @ received_by a ys"
  "receives_issued_by a (xs @ ys) = receives_issued_by a xs @ receives_issued_by a ys"
  by (simp_all add: pushed_by_def received_by_def receives_issued_by_def map_filter_app)

lemma projections_handler:
  assumes "list_all handler_entry obs"
  shows "pushed_by a obs = []" "received_by a obs = []" "receives_issued_by a obs = []"
proof -
  have "push_of a x = None \<and> receipt_of a x = None \<and> receive_of a x = None"
    if "handler_entry x" for x
    using that by (cases x; cases "fst x") auto
  with assms show "pushed_by a obs = []" "received_by a obs = []" "receives_issued_by a obs = []"
    by (induction obs)
       (simp_all add: pushed_by_def received_by_def receives_issued_by_def List.map_filter_def)
qed

lemma projections_other_loop:
  assumes "a' \<noteq> a"
  shows "pushed_by a (map (Pair (ReceiveLoop a')) obs) = []"
    "received_by a (map (Pair (ReceiveLoop a')) obs) = []"
    "receives_issued_by a (map (Pair (ReceiveLoop a')) obs) = []"
proof -
  have "push_of a (ReceiveLoop a', x) = None \<and> receipt_of a (ReceiveLoop a', x) = None
        \<and> receive_of a (ReceiveLoop a', x) = None" for x
    using assms by (cases "(a, (ReceiveLoop a', x))" rule: push_of.cases;
                    cases "(a, (ReceiveLoop a', x))" rule: receipt_of.cases;
                    cases "(a, (ReceiveLoop a', x))" rule: receive_of.cases) auto
  then show "pushed_by a (map (Pair (ReceiveLoop a')) obs) = []"
    "received_by a (map (Pair (ReceiveLoop a')) obs) = []"
    "receives_issued_by a (map (Pair (ReceiveLoop a')) obs) = []"
    by (induction obs)
       (simp_all add: pushed_by_def received_by_def receives_issued_by_def List.map_filter_def)
qed

text \<open>What one resumption of the loop observes.\<close>

lemma loop_resume_observations:
  "snd (startConsumerLoop_resume w ev sc) \<in>
     {[], [SetTimeout 100], [Receive (consumer sc) 1000]} \<or>
   (\<exists>m. snd (startConsumerLoop_resume w ev sc) \<in>
      {[ReceiveReturned m], [ReceiveReturned m, SetTimeout 100],
       [ReceiveReturned m, Receive (consumer sc) 1000]}) \<or>
   (\<exists>m. snd (startConsumerLoop_resume w ev sc) =
           [ReceiveReturned (Some m), WebContentsSend (consumerId sc) (browsedMsg m),
            Acknowledge (consumer sc) m]
        \<and> w \<and> \<not> stopRequested sc \<and> receiveLoop sc = Some AwaitReceive
        \<and> receiveLoop (fst (startConsumerLoop_resume w ev sc)) = Some (AwaitAcknowledge m))"
  unfolding startConsumerLoop_resume_def
  by (cases "(w, receiveLoop sc, ev, sc)" rule: loop_resume.cases)
     (auto simp: loop_head_def split: option.splits)

lemma loop_resume_projections:
  "pushed_by a (map (Pair (ReceiveLoop a)) (snd (startConsumerLoop_resume w ev sc))) = [] \<or>
   pushed_by a (map (Pair (ReceiveLoop a)) (snd (startConsumerLoop_resume w ev sc))) =
     map browsedMsg (received_by a (map (Pair (ReceiveLoop a)) (snd (startConsumerLoop_resume w ev sc))))"
  using loop_resume_observations[of w ev sc]
  by (auto simp: pushed_by_def received_by_def List.map_filter_def)

lemma loop_resume_flags:
  "paused (fst (startConsumerLoop_resume w ev sc)) = paused sc"
  "stopRequested (fst (startConsumerLoop_resume w ev sc)) = stopRequested sc"
  "consumer (fst (startConsumerLoop_resume w ev sc)) = consumer sc"
  "consumerId (fst (startConsumerLoop_resume w ev sc)) = consumerId sc"
  unfolding startConsumerLoop_resume_def
  by (cases "(w, receiveLoop sc, ev, sc)" rule: loop_resume.cases;
      simp add: loop_head_def split: option.splits)+

lemma loop_resume_paused_no_receive:
  "paused sc \<Longrightarrow>
   receives_issued_by a (map (Pair (ReceiveLoop a)) (snd (startConsumerLoop_resume w ev sc))) = []"
  unfolding startConsumerLoop_resume_def
  by (cases "(w, receiveLoop sc, ev, sc)" rule: loop_resume.cases)
     (auto simp: loop_head_def receives_issued_by_def List.map_filter_def split: option.splits)

text \<open>A loop whose stop is requested returns at its next resumption, and that
  resumption observes at most the value of the receive that was in flight.\<close>

lemma loop_resume_stopped:
  "stopRequested sc \<Longrightarrow>
   startConsumerLoop_resume w ev sc = (sc, []) \<or>
   (receiveLoop (fst (startConsumerLoop_resume w ev sc)) = Some LoopReturned \<and>
    (snd (startConsumerLoop_resume w ev sc) = [] \<or>
     (\<exists>m. snd (startConsumerLoop_resume w ev sc) = [ReceiveReturned m])))"
  unfolding startConsumerLoop_resume_def
  by (cases "(w, receiveLoop sc, ev, sc)" rule: loop_resume.cases)
     (auto simp: loop_head_def split: option.splits)

text \<open>Ordering: along every run the pushes of a loop are a subsequence of its receipts.\<close>

lemma subseq_step:
  assumes "subseq (pushed_by a (trace s)) (map browsedMsg (received_by a (trace s)))"
  shows "subseq (pushed_by a (trace (step e s))) (map browsedMsg (received_by a (trace (step e s))))"
proof (cases e s rule: step_cases)
  case (Foreign obs)
  with assms show ?thesis by (simp add: projections_handler)
next
  case (Flags b x obs)
  with assms show ?thesis by (simp add: projections_handler)
next
  case (Start x)
  with assms show ?thesis
    by (simp add: pushed_by_def received_by_def List.map_filter_def)
next
  case (Delete c)
  with assms show ?thesis by simp
next
  case (Loop b ev)
  define obs where "obs = map (Pair (ReceiveLoop b))
      (snd (startConsumerLoop_resume (mainWindow s) ev (scHeap s ! b)))"
  from Loop(6) have tr: "trace (step e s) = trace s @ obs" by (simp add: obs_def)
  have "subseq (pushed_by a obs) (map browsedMsg (received_by a obs))"
  proof (cases "b = a")
    case False
    then show ?thesis by (simp add: obs_def projections_other_loop)
  next
    case True
    with loop_resume_projections[of a "mainWindow s" ev "scHeap s ! a"]
    show ?thesis by (auto simp: obs_def)
  qed
  with assms show ?thesis
    unfolding tr by (simp add: list_emb_append_mono)
qed

lemma subseq_run:
  "subseq (pushed_by a (trace s)) (map browsedMsg (received_by a (trace s))) \<Longrightarrow>
   subseq (pushed_by a (trace (run evs s))) (map browsedMsg (received_by a (trace (run evs s))))"
  by (induction evs arbitrary: s) (simp_all add: subseq_step)

text \<open>Pausing is permanent: no segment of code clears \<open>paused\<close>.\<close>

lemma paused_step:
  assumes "a < length (scHeap s)" "paused (scHeap s ! a)"
  shows "a < length (scHeap (step e s)) \<and> paused (scHeap (step e s) ! a) \<and>
         receives_issued_by a (trace (step e s)) = receives_issued_by a (trace s)"
proof (cases e s rule: step_cases)
  case (Foreign obs)
  with assms show ?thesis by (simp add: projections_handler)
next
  case (Flags b x obs)
  with assms show ?thesis by (auto simp: projections_handler nth_upd)
next
  case (Start x)
  with assms show ?thesis
    by (simp add: nth_append receives_issued_by_def List.map_filter_def)
next
  case (Delete c)
  with assms show ?thesis by simp
next
  case (Loop b ev)
  note L = Loop(2-6)
  show ?thesis
  proof (cases "b = a")
    case False
    with L assms show ?thesis by (simp add: projections_other_loop)
  next
    case True
    with L assms show ?thesis
      by (simp add: loop_resume_flags loop_resume_paused_no_receive)
  qed
qed

lemma paused_run:
  "a < length (scHeap s) \<Longrightarrow> paused (scHeap s ! a) \<Longrightarrow>
   a < length (scHeap (run evs s)) \<and> paused (scHeap (run evs s) ! a) \<and>
   receives_issued_by a (trace (run evs s)) = receives_issued_by a (trace s)"
proof (induction evs arbitrary: s)
  case Nil
  then show ?case by simp
next
  case (Cons e evs)
  from paused_step[OF Cons.prems, of e] Cons.IH[of "step e s"]
  show ?case by simp
qed

text \<open>While a loop is paused, at most the receive that was in flight returns a
  message: the receipts so far, plus one if a receive is in flight, do not grow.\<close>

lemma loop_resume_paused_receipts:
  assumes "paused sc"
  shows "length (received_by a (map (Pair (ReceiveLoop a)) (snd (startConsumerLoop_resume w ev sc))))
           + (if receiveLoop (fst (startConsumerLoop_resume w ev sc)) = Some AwaitReceive then 1 else 0)
         \<le> (if receiveLoop sc = Some AwaitReceive then 1 else 0)"
  using assms unfolding startConsumerLoop_resume_def
  by (cases "(w, receiveLoop sc, ev, sc)" rule: loop_resume.cases)
     (auto simp: loop_head_def received_by_def List.map_filter_def split: option.splits)

lemma in_flight_step:
  assumes "a < length (scHeap s)" "paused (scHeap s ! a)"
    and "length (received_by a (trace s))
           + (if receiveLoop (scHeap s ! a) = Some AwaitReceive then 1 else 0) \<le> n"
  shows "length (received_by a (trace (step e s)))
           + (if receiveLoop (scHeap (step e s) ! a) = Some AwaitReceive then 1 else 0) \<le> n"
proof (cases e s rule: step_cases)
  case (Foreign obs)
  with assms show ?thesis by (simp add: projections_handler)
next
  case (Flags b x obs)
  with assms show ?thesis by (auto simp: projections_handler nth_upd)
next
  case (Start x)
  with assms show ?thesis
    by (simp add: nth_append received_by_def List.map_filter_def)
next
  case (Delete c)
  with assms show ?thesis by simp
next
  case (Loop b ev)
  note L = Loop(2-6)
  show ?thesis
  proof (cases "b = a")
    case False
    with L assms show ?thesis by (simp add: projections_other_loop)
  next
    case True
    from loop_resume_paused_receipts[OF assms(2), of a "mainWindow s" ev] assms(3)
    have "length (received_by a (trace s))
          + (length (received_by a (map (Pair (ReceiveLoop a))
               (snd (startConsumerLoop_resume (mainWindow s) ev (scHeap s ! a)))))
          + (if receiveLoop (fst (startConsumerLoop_resume (mainWindow s) ev (scHeap s ! a)))
                = Some AwaitReceive then 1 else 0)) \<le> n"
      by (simp split: if_splits)
    with True L assms(1) show ?thesis by simp
  qed
qed

lemma in_flight_run:
  "a < length (scHeap s) \<Longrightarrow> paused (scHeap s ! a) \<Longrightarrow>
   length (received_by a (trace s))
     + (if receiveLoop (scHeap s ! a) = Some AwaitReceive then 1 else 0) \<le> n \<Longrightarrow>
   length (received_by a (trace (run evs s))) \<le> n"
proof (induction evs arbitrary: s)
  case Nil
  then show ?case by (simp split: if_splits)
next
  case (Cons e evs)
  from paused_step[OF Cons.prems(1,2), of e] in_flight_step[OF Cons.prems, of e]
    Cons.IH[of "step e s"]
  show ?case by simp
qed

text \<open>Identifiers are not reused: one that has been issued and is not in the map
  never enters it again.\<close>

lemma retired_step:
  assumes "map_of (streamingConsumers s) c = None" "issued s c"
  shows "map_of (streamingConsumers (step e s)) c = None \<and> issued (step e s) c"
proof (cases e s rule: step_cases)
  case (Foreign obs)
  with assms show ?thesis by (auto intro: issued_mono)
next
  case (Flags b x obs)
  with assms show ?thesis by (auto simp: issued_def)
next
  case (Start x)
  from assms(2) obtain k where k: "k \<le> consumerIdCounter s" "c = streaming_consumer_id k"
    by (auto simp: issued_def)
  then have "c \<noteq> streaming_consumer_id (consumerIdCounter s + 1)"
    using streaming_consumer_id_inj by fastforce
  with Start assms k show ?thesis
    by (auto simp: AList.update_conv issued_def intro: le_SucI)
next
  case (Delete c')
  with assms show ?thesis by (auto simp: AList.delete_conv issued_def)
next
  case (Loop b ev)
  from assms Loop(2-6) show ?thesis by (simp add: issued_def)
qed

lemma retired_run:
  "map_of (streamingConsumers s) c = None \<Longrightarrow> issued s c \<Longrightarrow>
   map_of (streamingConsumers (run evs s)) c = None"
proof (induction evs arbitrary: s)
  case Nil
  then show ?case by simp
next
  case (Cons e evs)
  from retired_step[OF Cons.prems, of e] Cons.IH[of "step e s"]
  show ?case by simp
qed

subsection \<open>The streaming consumer supervisor\<close>

lemma run_append: "run (xs @ ys) s = run ys (run xs s)"
  by (induction xs arbitrary: s) simp_all

lemma reach_inv: "supervisor_inv (run evs initial_state)"
  by (simp add: inv_run inv_initial)

text \<open>
  C1. In every reachable state: \<^verbatim>\<open>messages:stopConsumer\<close> on an identifier in the map sets
  \<open>stopRequested\<close> and suspends in the await of the receive loop, without closing
  anything and without touching the map. The handler is resumed from that await only
  when the loop has returned, and only then calls the native consumer's close. So
  whenever a stop handler is suspended in the close, the loop of its consumer has
  returned, and a returned loop does nothing on any event: no receive is in flight.
  When the close resolves, the entry is deleted and the handler answers success; from
  then on, along every run, \<^verbatim>\<open>messages:stopConsumer\<close> on the same identifier answers
  \<^verbatim>\<open>Consumer <id> not found\<close>.
\<close>

theorem stopConsumer_joins_loop_before_close:
  assumes "s = run evs initial_state"
  shows
  "(map_of (streamingConsumers s) c = Some a \<longrightarrow>
      step (Call (MessagesStopConsumer c)) s =
        s\<lparr>scHeap := (scHeap s)[a := (scHeap s ! a)\<lparr>stopRequested := True\<rparr>],
          tasks := tasks s @ [StopConsumer_join a c]\<rparr>) \<and>
   (n < length (tasks s) \<and> tasks s ! n = StopConsumer_join a c \<longrightarrow>
      step (Joined n) s =
        (if receiveLoop (scHeap s ! a) = Some LoopReturned
         then s\<lparr>tasks := (tasks s)[n := StopConsumer_close a c],
                trace := trace s @ [(Handler n, CloseConsumer (consumer (scHeap s ! a)))]\<rparr>
         else s)) \<and>
   (n < length (tasks s) \<and> tasks s ! n = StopConsumer_close a c \<longrightarrow>
      receiveLoop (scHeap s ! a) = Some LoopReturned \<and>
      startConsumerLoop_resume w ev (scHeap s ! a) = (scHeap s ! a, []) \<and>
      step (Settle n (Resolved ())) s =
        s\<lparr>streamingConsumers := AList.delete c (streamingConsumers s),
          tasks := (tasks s)[n := Responded (success Void)]\<rparr> \<and>
      fst (stopConsumer c k (run evs' (step (Settle n (Resolved ())) s))) =
        Responded (error (''Consumer '' @ c @ '' not found'')))"
proof -
  have inv: "supervisor_inv s" using assms by (simp add: reach_inv)
  have call: "step (Call (MessagesStopConsumer c)) s =
        s\<lparr>scHeap := (scHeap s)[a := (scHeap s ! a)\<lparr>stopRequested := True\<rparr>],
          tasks := tasks s @ [StopConsumer_join a c]\<rparr>"
    if "map_of (streamingConsumers s) c = Some a"
  proof -
    from inv that have "a < length (scHeap s)" "receiveLoop (scHeap s ! a) \<noteq> None"
      by (auto simp: supervisor_inv_def)
    with that show ?thesis by (simp add: stopConsumer_def Let_def)
  qed
  have join: "step (Joined n) s =
        (if receiveLoop (scHeap s ! a) = Some LoopReturned
         then s\<lparr>tasks := (tasks s)[n := StopConsumer_close a c],
                trace := trace s @ [(Handler n, CloseConsumer (consumer (scHeap s ! a)))]\<rparr>
         else s)"
    if "n < length (tasks s)" "tasks s ! n = StopConsumer_join a c"
    using that by (simp add: resume_task_def stopConsumer_joined_def observe_def tasks_same)
  have close: "receiveLoop (scHeap s ! a) = Some LoopReturned \<and>
      startConsumerLoop_resume w ev (scHeap s ! a) = (scHeap s ! a, []) \<and>
      step (Settle n (Resolved ())) s =
        s\<lparr>streamingConsumers := AList.delete c (streamingConsumers s),
          tasks := (tasks s)[n := Responded (success Void)]\<rparr> \<and>
      fst (stopConsumer c k (run evs' (step (Settle n (Resolved ())) s))) =
        Responded (error (''Consumer '' @ c @ '' not found''))"
    if n: "n < length (tasks s)" and t: "tasks s ! n = StopConsumer_close a c"
  proof -
    from inv n have "task_ok s (tasks s ! n)" by (simp add: supervisor_inv_def)
    with t have returned: "receiveLoop (scHeap s ! a) = Some LoopReturned" and iss: "issued s c"
      by simp_all
    have settled: "step (Settle n (Resolved ())) s =
        s\<lparr>streamingConsumers := AList.delete c (streamingConsumers s),
          tasks := (tasks s)[n := Responded (success Void)]\<rparr>"
      using n t by (simp add: resume_task_def stopConsumer_settled_def)
    have "map_of (streamingConsumers (step (Settle n (Resolved ())) s)) c = None"
      and "issued (step (Settle n (Resolved ())) s) c"
      using iss unfolding settled by (simp_all add: AList.delete_conv issued_def)
    then have "map_of (streamingConsumers (run evs' (step (Settle n (Resolved ())) s))) c = None"
      by (rule retired_run)
    then have "fst (stopConsumer c k (run evs' (step (Settle n (Resolved ())) s))) =
        Responded (error (''Consumer '' @ c @ '' not found''))"
      by (simp add: stopConsumer_def)
    with returned settled show ?thesis by (simp add: loop_resume_returned)
  qed
  from call join close show ?thesis by blast
qed


lemma example_message_converted: "convertMessage example_message = example_pulsar_message"
  by (simp add: convertMessage_def example_message_def example_pulsar_message_def)

lemma example_received_eq:
  "example_received =
     example_streaming
       \<lparr> scHeap := [example_consumer False False (AwaitAcknowledge example_pulsar_message)],
         trace := trace example_streaming @
           [(ReceiveLoop 0, ReceiveReturned (Some example_pulsar_message)),
            (ReceiveLoop 0, WebContentsSend ''streaming_consumer_1''
                              (browsedMsg example_pulsar_message)),
            (ReceiveLoop 0, Acknowledge 0 example_pulsar_message)] \<rparr>"
  by (simp add: example_received_def example_streaming_eq startConsumerLoop_resume_def
        receive_timeout_def example_message_converted observe_def example_consumer_def)

lemma example_stopping_eq:
  "example_stopping =
     example_streaming
       \<lparr> scHeap := [example_consumer False True AwaitReceive],
         tasks := tasks example_streaming @ [StopConsumer_join 0 ''streaming_consumer_1''] \<rparr>"
  by (simp add: example_stopping_def example_streaming_eq stopConsumer_def
        example_consumer_def)

lemma example_closing_eq:
  "example_closing =
     example_streaming
       \<lparr> scHeap := [example_consumer False True LoopReturned],
         tasks := [example_connect_response,
                   Responded (success (Text ''streaming_consumer_1'')),
                   StopConsumer_close 0 ''streaming_consumer_1''],
         trace := trace example_streaming @
           [(ReceiveLoop 0, ReceiveReturned None), (Handler 2, CloseConsumer 0)] \<rparr>"
  by (simp add: example_closing_def example_stopping_eq example_streaming_eq
        startConsumerLoop_resume_def receive_timeout_def loop_head_def observe_def
        resume_task_def stopConsumer_joined_def example_consumer_def)

lemma example_streaming_reached:
  "example_streaming =
     run [Call (ClusterConnect example_config 100),
          Call (MessagesStartConsumer ''c1'' ''t'' ''s1'' None), Settle 1 (Resolved ()),
          WindowCreated] initial_state"
  by (simp add: example_streaming_def example_connected_def)

lemma example_stopping_reached:
  "example_stopping =
     run [Call (ClusterConnect example_config 100),
          Call (MessagesStartConsumer ''c1'' ''t'' ''s1'' None), Settle 1 (Resolved ()),
          WindowCreated, Call (MessagesStopConsumer ''streaming_consumer_1'')] initial_state"
  by (simp add: example_stopping_def example_streaming_def example_connected_def)

lemma example_closing_reached:
  "example_closing =
     run [Call (ClusterConnect example_config 100),
          Call (MessagesStartConsumer ''c1'' ''t'' ''s1'' None), Settle 1 (Resolved ()),
          WindowCreated, Call (MessagesStopConsumer ''streaming_consumer_1''),
          Loop 0 (ReceiveSettles (Rejected ''TimeOut'')), Joined 2] initial_state"
  by (simp add: example_closing_def example_stopping_def example_streaming_def
        example_connected_def)

theorem stopConsumer_joins_loop_before_close_witness:
  "map_of (streamingConsumers example_streaming) ''streaming_consumer_1'' = Some 0 \<and>
   step (Call (MessagesStopConsumer ''streaming_consumer_1'')) example_streaming =
     example_streaming
       \<lparr>scHeap := (scHeap example_streaming)
                    [0 := (scHeap example_streaming ! 0)\<lparr>stopRequested := True\<rparr>],
        tasks := tasks example_streaming @ [StopConsumer_join 0 ''streaming_consumer_1'']\<rparr> \<and>
   (2 < length (tasks example_stopping) \<and>
    tasks example_stopping ! 2 = StopConsumer_join 0 ''streaming_consumer_1'') \<and>
   receiveLoop (scHeap example_stopping ! 0) \<noteq> Some LoopReturned \<and>
   step (Joined 2) example_stopping = example_stopping \<and>
   (2 < length (tasks example_closing) \<and>
    tasks example_closing ! 2 = StopConsumer_close 0 ''streaming_consumer_1'') \<and>
   receiveLoop (scHeap example_closing ! 0) = Some LoopReturned \<and>
   fst (stopConsumer ''streaming_consumer_1'' 3
         (run [Call (MessagesStartConsumer ''c1'' ''t'' ''s1'' None), Settle 3 (Resolved ())]
            (step (Settle 2 (Resolved ())) example_closing))) =
     Responded (error (''Consumer '' @ ''streaming_consumer_1'' @ '' not found''))"
proof -
  have h1: "map_of (streamingConsumers example_streaming) ''streaming_consumer_1'' = Some 0"
    by (simp add: example_streaming_eq)
  have h2: "2 < length (tasks example_stopping) \<and>
      tasks example_stopping ! 2 = StopConsumer_join 0 ''streaming_consumer_1''"
    by (simp add: example_stopping_eq example_streaming_eq)
  have h3: "2 < length (tasks example_closing) \<and>
      tasks example_closing ! 2 = StopConsumer_close 0 ''streaming_consumer_1''"
    by (simp add: example_closing_eq)
  have waiting: "receiveLoop (scHeap example_stopping ! 0) \<noteq> Some LoopReturned"
    by (simp add: example_stopping_eq example_consumer_def)
  note t1 = stopConsumer_joins_loop_before_close [OF example_streaming_reached,
      of "''streaming_consumer_1''" 0 2 True TimerFires 3 "[]"]
  note t2 = stopConsumer_joins_loop_before_close [OF example_stopping_reached,
      of "''streaming_consumer_1''" 0 2 True TimerFires 3 "[]"]
  note t3 = stopConsumer_joins_loop_before_close [OF example_closing_reached,
      of "''streaming_consumer_1''" 0 2 True TimerFires 3
         "[Call (MessagesStartConsumer ''c1'' ''t'' ''s1'' None), Settle 3 (Resolved ())]"]
  from t2 h2 waiting have "step (Joined 2) example_stopping = example_stopping"
    by presburger
  with t1 t3 h1 h2 h3 waiting show ?thesis by blast
qed


lemma example_paused_eq:
  "example_paused =
     example_streaming
       \<lparr> scHeap := [example_consumer True False AwaitReceive],
         tasks := tasks example_streaming @ [Responded (success Void)] \<rparr>"
  by (simp add: example_paused_def example_streaming_eq pauseConsumer_def example_consumer_def)

lemma example_received_reached:
  "example_received =
     run [Call (ClusterConnect example_config 100),
          Call (MessagesStartConsumer ''c1'' ''t'' ''s1'' None), Settle 1 (Resolved ()),
          WindowCreated, Loop 0 (ReceiveSettles (Resolved example_message))] initial_state"
  by (simp add: example_received_def example_streaming_def example_connected_def)

lemma example_paused_reached:
  "example_paused =
     run [Call (ClusterConnect example_config 100),
          Call (MessagesStartConsumer ''c1'' ''t'' ''s1'' None), Settle 1 (Resolved ()),
          WindowCreated, Call (MessagesPauseConsumer ''streaming_consumer_1'')] initial_state"
  by (simp add: example_paused_def example_streaming_def example_connected_def)

text \<open>
  C2. When a receive returns a message, the loop pushes the converted message to the
  renderer and then calls acknowledge, in this order, if the window exists and no stop
  has been requested; otherwise it does neither and goes back to the loop head, which
  neither pushes nor acknowledges. A failed acknowledge never ends the loop: after it
  the loop has returned exactly when a stop has been requested, which is exactly when it
  has returned after a successful acknowledge, and then both leave the same state and
  observe nothing. With no stop requested, the failure makes the loop sleep 100 ms, after
  which it stands at the loop head exactly as after a successful acknowledge: the next
  message received is pushed and acknowledged.
\<close>

theorem acknowledge_failure_never_ends_loop:
  "loop_resume w (Some AwaitReceive) (ReceiveSettles (Resolved nm)) sc =
     (if w \<and> \<not> stopRequested sc
      then (sc\<lparr>receiveLoop := Some (AwaitAcknowledge (convertMessage nm))\<rparr>,
            [ReceiveReturned (Some (convertMessage nm)),
             WebContentsSend (consumerId sc) (browsedMsg (convertMessage nm)),
             Acknowledge (consumer sc) (convertMessage nm)])
      else (fst (loop_head sc), ReceiveReturned (Some (convertMessage nm)) # snd (loop_head sc)))
   \<and> WebContentsSend c b \<notin> set (snd (loop_head sc))
   \<and> Acknowledge h m' \<notin> set (snd (loop_head sc))
   \<and> loop_resume w (Some (AwaitAcknowledge m)) (AcknowledgeSettles (Rejected e)) sc =
       (if stopRequested sc then (sc\<lparr>receiveLoop := Some LoopReturned\<rparr>, [])
        else (sc\<lparr>receiveLoop := Some AwaitBackoff\<rparr>, [SetTimeout 100]))
   \<and> (receiveLoop (fst (loop_resume w (Some (AwaitAcknowledge m))
                          (AcknowledgeSettles (Rejected e)) sc)) = Some LoopReturned)
       = stopRequested sc
   \<and> (receiveLoop (fst (loop_resume w (Some (AwaitAcknowledge m))
                          (AcknowledgeSettles (Resolved ())) sc)) = Some LoopReturned)
       = stopRequested sc
   \<and> (stopRequested sc \<longrightarrow>
        loop_resume w (Some (AwaitAcknowledge m)) (AcknowledgeSettles (Rejected e)) sc
        = loop_resume w (Some (AwaitAcknowledge m)) (AcknowledgeSettles (Resolved ())) sc)
   \<and> (\<not> stopRequested sc \<longrightarrow>
        startConsumerLoop_resume w' TimerFires
          (fst (loop_resume w (Some (AwaitAcknowledge m)) (AcknowledgeSettles (Rejected e)) sc))
        = loop_resume w (Some (AwaitAcknowledge m)) (AcknowledgeSettles (Resolved ())) sc)
   \<and> (a < length (scHeap s) \<and> receiveLoop (scHeap s ! a) = Some (AwaitAcknowledge m)
        \<and> \<not> stopRequested (scHeap s ! a) \<and> \<not> paused (scHeap s ! a) \<and> mainWindow s \<longrightarrow>
        trace (run [Loop a (AcknowledgeSettles (Rejected e)), Loop a TimerFires,
                    Loop a (ReceiveSettles (Resolved nm))] s) =
          trace s @ map (Pair (ReceiveLoop a))
            [SetTimeout 100, Receive (consumer (scHeap s ! a)) 1000,
             ReceiveReturned (Some (convertMessage nm)),
             WebContentsSend (consumerId (scHeap s ! a)) (browsedMsg (convertMessage nm)),
             Acknowledge (consumer (scHeap s ! a)) (convertMessage nm)])"
  by (auto simp: loop_head_def startConsumerLoop_resume_def receive_timeout_def observe_def
        Let_def)

theorem acknowledge_failure_never_ends_loop_witness:
  "(0 < length (scHeap example_received)
      \<and> receiveLoop (scHeap example_received ! 0) = Some (AwaitAcknowledge example_pulsar_message)
      \<and> \<not> stopRequested (scHeap example_received ! 0)
      \<and> \<not> paused (scHeap example_received ! 0) \<and> mainWindow example_received)
   \<and> trace (run [Loop 0 (AcknowledgeSettles (Rejected ''AckFailed'')), Loop 0 TimerFires,
                 Loop 0 (ReceiveSettles (Resolved example_message))] example_received) =
       trace example_received @ map (Pair (ReceiveLoop 0))
         [SetTimeout 100, Receive (consumer (scHeap example_received ! 0)) 1000,
          ReceiveReturned (Some (convertMessage example_message)),
          WebContentsSend (consumerId (scHeap example_received ! 0))
            (browsedMsg (convertMessage example_message)),
          Acknowledge (consumer (scHeap example_received ! 0)) (convertMessage example_message)]
   \<and> startConsumerLoop_resume True TimerFires
        (fst (loop_resume True (Some (AwaitAcknowledge example_pulsar_message))
               (AcknowledgeSettles (Rejected ''AckFailed'')) (scHeap example_received ! 0)))
       = loop_resume True (Some (AwaitAcknowledge example_pulsar_message))
           (AcknowledgeSettles (Resolved ())) (scHeap example_received ! 0)
   \<and> stopRequested (scHeap example_stopping ! 0)
   \<and> loop_resume True (Some (AwaitAcknowledge example_pulsar_message))
        (AcknowledgeSettles (Rejected ''AckFailed'')) (scHeap example_stopping ! 0)
       = loop_resume True (Some (AwaitAcknowledge example_pulsar_message))
           (AcknowledgeSettles (Resolved ())) (scHeap example_stopping ! 0)"
proof -
  have h: "0 < length (scHeap example_received)
      \<and> receiveLoop (scHeap example_received ! 0) = Some (AwaitAcknowledge example_pulsar_message)
      \<and> \<not> stopRequested (scHeap example_received ! 0)
      \<and> \<not> paused (scHeap example_received ! 0) \<and> mainWindow example_received"
    by (simp add: example_received_eq example_streaming_eq example_consumer_def)
  have st: "stopRequested (scHeap example_stopping ! 0)"
    by (simp add: example_stopping_eq example_consumer_def)
  note t1 = acknowledge_failure_never_ends_loop
         [of True example_message "scHeap example_received ! 0" "''x''" "\<lparr> messageId = [],
            data = [], properties = [], publishTimestamp = 0, eventTimestamp = 0,
            partitionKey = None, topicName = [] \<rparr>" 0 example_pulsar_message
            example_pulsar_message "''AckFailed''" True 0 example_received]
  note t2 = acknowledge_failure_never_ends_loop
         [of True example_message "scHeap example_stopping ! 0" "''x''" "\<lparr> messageId = [],
            data = [], properties = [], publishTimestamp = 0, eventTimestamp = 0,
            partitionKey = None, topicName = [] \<rparr>" 0 example_pulsar_message
            example_pulsar_message "''AckFailed''" True 0 example_received]
  from t1 h have
    "trace (run [Loop 0 (AcknowledgeSettles (Rejected ''AckFailed'')), Loop 0 TimerFires,
                 Loop 0 (ReceiveSettles (Resolved example_message))] example_received) =
       trace example_received @ map (Pair (ReceiveLoop 0))
         [SetTimeout 100, Receive (consumer (scHeap example_received ! 0)) 1000,
          ReceiveReturned (Some (convertMessage example_message)),
          WebContentsSend (consumerId (scHeap example_received ! 0))
            (browsedMsg (convertMessage example_message)),
          Acknowledge (consumer (scHeap example_received ! 0)) (convertMessage example_message)]"
    and "startConsumerLoop_resume True TimerFires
        (fst (loop_resume True (Some (AwaitAcknowledge example_pulsar_message))
               (AcknowledgeSettles (Rejected ''AckFailed'')) (scHeap example_received ! 0)))
       = loop_resume True (Some (AwaitAcknowledge example_pulsar_message))
           (AcknowledgeSettles (Resolved ())) (scHeap example_received ! 0)"
    by blast+
  moreover from t2 st have
    "loop_resume True (Some (AwaitAcknowledge example_pulsar_message))
        (AcknowledgeSettles (Rejected ''AckFailed'')) (scHeap example_stopping ! 0)
       = loop_resume True (Some (AwaitAcknowledge example_pulsar_message))
           (AcknowledgeSettles (Resolved ())) (scHeap example_stopping ! 0)"
    by blast
  ultimately show ?thesis using h st by blast
qed

text \<open>
  C3, at an input where the code departs from it. In \<open>example_paused\<close> the consumer
  \<open>streaming_consumer_1\<close> has been started and then paused, with its first receive in
  flight; \<^verbatim>\<open>messages:pauseConsumer\<close> has answered at once and has only set \<open>paused\<close>.
  No segment of code of the main process sets \<open>paused\<close> to false (the renderer's Resume
  button sends nothing). So whatever happens afterwards, the consumer stays paused, its
  loop issues no further receive, and at most the message of the receive in flight is
  returned and pushed. When that message arrives it is pushed and acknowledged, and
  then the loop sets one 100 ms timer after the other: delivery never resumes for this
  consumer. Messages are delivered again only once the consumer has been stopped and a
  new one, \<open>streaming_consumer_2\<close>, has been started on the subscription.
\<close>

theorem paused_consumer_never_resumes:
  "example_paused =
     run [Call (ClusterConnect example_config 100),
          Call (MessagesStartConsumer ''c1'' ''t'' ''s1'' None), Settle 1 (Resolved ()),
          WindowCreated, Call (MessagesPauseConsumer ''streaming_consumer_1'')] initial_state
   \<and> example_paused =
       example_streaming
         \<lparr> scHeap := [example_consumer True False AwaitReceive],
           tasks := tasks example_streaming @ [Responded (success Void)] \<rparr>
   \<and> paused (scHeap (run evs example_paused) ! 0)
   \<and> receives_issued_by 0 (trace (run evs example_paused)) = [(0, 1000)]
   \<and> length (received_by 0 (trace (run evs example_paused))) \<le> 1
   \<and> length (pushed_by 0 (trace (run evs example_paused))) \<le> 1
   \<and> trace (run [Loop 0 (ReceiveSettles (Resolved example_message)),
                 Loop 0 (AcknowledgeSettles (Resolved ())),
                 Loop 0 TimerFires, Loop 0 TimerFires] example_paused) =
       trace example_paused @ map (Pair (ReceiveLoop 0))
         [ReceiveReturned (Some example_pulsar_message),
          WebContentsSend ''streaming_consumer_1'' (browsedMsg example_pulsar_message),
          Acknowledge 0 example_pulsar_message,
          SetTimeout 100, SetTimeout 100, SetTimeout 100]
   \<and> trace (run [Loop 0 (ReceiveSettles (Rejected ''TimeOut'')),
        Call (MessagesStopConsumer ''streaming_consumer_1''), Loop 0 TimerFires, Joined 3,
        Settle 3 (Resolved ()),
        Call (MessagesStartConsumer ''c1'' ''t'' ''s1'' None), Settle 4 (Resolved ()),
        Loop 1 (ReceiveSettles (Resolved example_message))] example_paused)
     = trace example_paused @
       [(ReceiveLoop 0, ReceiveReturned None), (ReceiveLoop 0, SetTimeout 100),
        (Handler 3, CloseConsumer 0),
        (Handler 4, Subscribe 0 ''t'' ''s1'' 0),
        (ReceiveLoop 1, Receive 1 1000),
        (ReceiveLoop 1, ReceiveReturned (Some example_pulsar_message)),
        (ReceiveLoop 1, WebContentsSend ''streaming_consumer_2''
                          (browsedMsg example_pulsar_message)),
        (ReceiveLoop 1, Acknowledge 1 example_pulsar_message)]"
proof -
  have len: "0 < length (scHeap example_paused)" and p: "paused (scHeap example_paused ! 0)"
    and at: "receiveLoop (scHeap example_paused ! 0) = Some AwaitReceive"
    by (simp_all add: example_paused_eq example_consumer_def)
  have tr: "trace example_paused =
      [(Handler 1, Subscribe 0 ''t'' ''s1'' 0), (ReceiveLoop 0, Receive 0 1000)]"
    by (simp add: example_paused_eq example_streaming_eq)
  have issued: "receives_issued_by 0 (trace example_paused) = [(0, 1000)]"
    and none: "received_by 0 (trace example_paused) = []" "pushed_by 0 (trace example_paused) = []"
    by (simp_all add: tr receives_issued_by_def received_by_def pushed_by_def
          List.map_filter_def)
  from paused_run[OF len p, of evs] issued
  have stays: "paused (scHeap (run evs example_paused) ! 0)"
    and no_receive: "receives_issued_by 0 (trace (run evs example_paused)) = [(0, 1000)]"
    by simp_all
  have receipts: "length (received_by 0 (trace (run evs example_paused))) \<le> 1"
    by (rule in_flight_run[OF len p]) (simp add: none at)
  have "subseq (pushed_by 0 (trace (run evs example_paused)))
          (map browsedMsg (received_by 0 (trace (run evs example_paused))))"
    by (rule subseq_run) (simp add: none)
  then have "length (pushed_by 0 (trace (run evs example_paused)))
      \<le> length (map browsedMsg (received_by 0 (trace (run evs example_paused))))"
    by (rule list_emb_length)
  with receipts have pushes: "length (pushed_by 0 (trace (run evs example_paused))) \<le> 1"
    by simp
  have in_flight: "trace (run [Loop 0 (ReceiveSettles (Resolved example_message)),
                 Loop 0 (AcknowledgeSettles (Resolved ())),
                 Loop 0 TimerFires, Loop 0 TimerFires] example_paused) =
       trace example_paused @ map (Pair (ReceiveLoop 0))
         [ReceiveReturned (Some example_pulsar_message),
          WebContentsSend ''streaming_consumer_1'' (browsedMsg example_pulsar_message),
          Acknowledge 0 example_pulsar_message,
          SetTimeout 100, SetTimeout 100, SetTimeout 100]"
    by (simp add: example_paused_eq example_streaming_eq example_consumer_def
          startConsumerLoop_resume_def receive_timeout_def example_message_converted
          loop_head_def observe_def)
  have restart: "trace (run [Loop 0 (ReceiveSettles (Rejected ''TimeOut'')),
        Call (MessagesStopConsumer ''streaming_consumer_1''), Loop 0 TimerFires, Joined 3,
        Settle 3 (Resolved ()),
        Call (MessagesStartConsumer ''c1'' ''t'' ''s1'' None), Settle 4 (Resolved ()),
        Loop 1 (ReceiveSettles (Resolved example_message))] example_paused)
     = trace example_paused @
       [(ReceiveLoop 0, ReceiveReturned None), (ReceiveLoop 0, SetTimeout 100),
        (Handler 3, CloseConsumer 0),
        (Handler 4, Subscribe 0 ''t'' ''s1'' 0),
        (ReceiveLoop 1, Receive 1 1000),
        (ReceiveLoop 1, ReceiveReturned (Some example_pulsar_message)),
        (ReceiveLoop 1, WebContentsSend ''streaming_consumer_2''
                          (browsedMsg example_pulsar_message)),
        (ReceiveLoop 1, Acknowledge 1 example_pulsar_message)]"
    by (simp add: example_paused_eq example_streaming_eq example_consumer_def
          example_connection_def example_client_def example_message_converted
          startConsumer_def startConsumer_settled_def stopConsumer_def stopConsumer_joined_def
          stopConsumer_settled_def resume_task_def observe_def loop_head_def
          startConsumerLoop_resume_def receive_timeout_def streaming_consumer_id_def
          string_of_nat.simps digit_char_def ensureClient_def set_add_def
          subscriptionType_code_def Let_def)
  from example_paused_reached example_paused_eq stays no_receive receipts pushes in_flight
    restart
  show ?thesis by blast
qed

text \<open>
  C4, as the code has it. Along every run, the messages a loop has pushed to the
  renderer are a subsequence of the messages its receives have returned, in the same
  order. A resumption of the loop pushes a message, and likewise acknowledges one,
  exactly when it resumes from a receive that returned this message while the window
  exists and no stop is requested; the push then directly follows the return of the
  receive and is followed by the acknowledge, and the loop issues its next receive only
  in a later resumption. A message returned while the window is missing or a stop is
  requested is dropped: the loop goes back to its head without push or acknowledge.
\<close>

theorem pushes_follow_receive_order:
  "subseq (pushed_by a (trace (run evs initial_state)))
     (map browsedMsg (received_by a (trace (run evs initial_state))))
   \<and> ((WebContentsSend c b \<in> set (snd (startConsumerLoop_resume w ev sc))) =
        (\<exists>nm. receiveLoop sc = Some AwaitReceive \<and> ev = ReceiveSettles (Resolved nm) \<and> w
              \<and> \<not> stopRequested sc \<and> c = consumerId sc \<and> b = browsedMsg (convertMessage nm)))
   \<and> ((Acknowledge h m' \<in> set (snd (startConsumerLoop_resume w ev sc))) =
        (\<exists>nm. receiveLoop sc = Some AwaitReceive \<and> ev = ReceiveSettles (Resolved nm) \<and> w
              \<and> \<not> stopRequested sc \<and> h = consumer sc \<and> m' = convertMessage nm))
   \<and> (WebContentsSend c b \<in> set (snd (startConsumerLoop_resume w ev sc)) \<longrightarrow>
        (\<exists>m. snd (startConsumerLoop_resume w ev sc) =
                [ReceiveReturned (Some m), WebContentsSend c b, Acknowledge (consumer sc) m]
            \<and> b = browsedMsg m
            \<and> receiveLoop (fst (startConsumerLoop_resume w ev sc)) = Some (AwaitAcknowledge m)))
   \<and> (receiveLoop sc = Some AwaitReceive \<and> \<not> (w \<and> \<not> stopRequested sc) \<longrightarrow>
        startConsumerLoop_resume w (ReceiveSettles (Resolved nm)) sc =
          (fst (loop_head sc), ReceiveReturned (Some (convertMessage nm)) # snd (loop_head sc)))"
proof -
  have order: "subseq (pushed_by a (trace (run evs initial_state)))
     (map browsedMsg (received_by a (trace (run evs initial_state))))"
    by (rule subseq_run) (simp add: initial_state_def pushed_by_def List.map_filter_def)
  have gate: "(WebContentsSend c b \<in> set (snd (startConsumerLoop_resume w ev sc))) =
        (\<exists>nm. receiveLoop sc = Some AwaitReceive \<and> ev = ReceiveSettles (Resolved nm) \<and> w
              \<and> \<not> stopRequested sc \<and> c = consumerId sc \<and> b = browsedMsg (convertMessage nm))"
    unfolding startConsumerLoop_resume_def
    by (cases "(w, receiveLoop sc, ev, sc)" rule: loop_resume.cases)
       (auto simp: loop_head_def receive_timeout_def split: option.splits settled.splits)
  have ack: "(Acknowledge h m' \<in> set (snd (startConsumerLoop_resume w ev sc))) =
        (\<exists>nm. receiveLoop sc = Some AwaitReceive \<and> ev = ReceiveSettles (Resolved nm) \<and> w
              \<and> \<not> stopRequested sc \<and> h = consumer sc \<and> m' = convertMessage nm)"
    unfolding startConsumerLoop_resume_def
    by (cases "(w, receiveLoop sc, ev, sc)" rule: loop_resume.cases)
       (auto simp: loop_head_def receive_timeout_def split: option.splits settled.splits)
  have shape: "\<exists>m. snd (startConsumerLoop_resume w ev sc) =
                [ReceiveReturned (Some m), WebContentsSend c b, Acknowledge (consumer sc) m]
            \<and> b = browsedMsg m
            \<and> receiveLoop (fst (startConsumerLoop_resume w ev sc)) = Some (AwaitAcknowledge m)"
    if "WebContentsSend c b \<in> set (snd (startConsumerLoop_resume w ev sc))"
    using that loop_resume_observations[of w ev sc] by auto
  have dropped: "startConsumerLoop_resume w (ReceiveSettles (Resolved nm)) sc =
          (fst (loop_head sc), ReceiveReturned (Some (convertMessage nm)) # snd (loop_head sc))"
    if "receiveLoop sc = Some AwaitReceive" "\<not> (w \<and> \<not> stopRequested sc)"
    using that by (auto simp: startConsumerLoop_resume_def receive_timeout_def)
  from order gate ack shape dropped show ?thesis by blast
qed

theorem pushes_follow_receive_order_witness:
  "WebContentsSend ''streaming_consumer_1'' (browsedMsg (convertMessage example_message))
     \<in> set (snd (startConsumerLoop_resume True (ReceiveSettles (Resolved example_message))
                 (example_consumer False False AwaitReceive)))
   \<and> (receiveLoop (example_consumer False False AwaitReceive) = Some AwaitReceive
        \<and> \<not> (False \<and> \<not> stopRequested (example_consumer False False AwaitReceive)))
   \<and> startConsumerLoop_resume False (ReceiveSettles (Resolved example_message))
        (example_consumer False False AwaitReceive) =
       (fst (loop_head (example_consumer False False AwaitReceive)),
        ReceiveReturned (Some (convertMessage example_message))
          # snd (loop_head (example_consumer False False AwaitReceive)))
   \<and> subseq (pushed_by 0 (trace example_received))
        (map browsedMsg (received_by 0 (trace example_received)))
   \<and> pushed_by 0 (trace example_received) = [browsedMsg example_pulsar_message]
   \<and> length (snd (startConsumerLoop_resume True (ReceiveSettles (Resolved example_message))
                 (example_consumer False False AwaitReceive))) = 3"
proof -
  have h1: "WebContentsSend ''streaming_consumer_1'' (browsedMsg (convertMessage example_message))
     \<in> set (snd (startConsumerLoop_resume True (ReceiveSettles (Resolved example_message))
                 (example_consumer False False AwaitReceive)))"
    by (simp add: startConsumerLoop_resume_def example_consumer_def receive_timeout_def)
  have h2: "receiveLoop (example_consumer False False AwaitReceive) = Some AwaitReceive
        \<and> \<not> (False \<and> \<not> stopRequested (example_consumer False False AwaitReceive))"
    by (simp add: example_consumer_def)
  have p: "pushed_by 0 (trace example_received) = [browsedMsg example_pulsar_message]"
    by (simp add: example_received_eq example_streaming_eq pushed_by_def List.map_filter_def)
  note t1 = pushes_follow_receive_order
      [of 0 "[Call (ClusterConnect example_config 100),
          Call (MessagesStartConsumer ''c1'' ''t'' ''s1'' None), Settle 1 (Resolved ()),
          WindowCreated, Loop 0 (ReceiveSettles (Resolved example_message))]"
          "''streaming_consumer_1''" "browsedMsg (convertMessage example_message)"
          False "ReceiveSettles (Resolved example_message)"
          "example_consumer False False AwaitReceive" 0 example_pulsar_message
          example_message,
       folded example_received_reached]
  note t2 = pushes_follow_receive_order
      [of 0 "[]" "''streaming_consumer_1''" "browsedMsg (convertMessage example_message)"
          True "ReceiveSettles (Resolved example_message)"
          "example_consumer False False AwaitReceive" 0 example_pulsar_message
          example_message]
  from t2 h1 obtain m where
    "snd (startConsumerLoop_resume True (ReceiveSettles (Resolved example_message))
            (example_consumer False False AwaitReceive)) =
       [ReceiveReturned (Some m),
        WebContentsSend ''streaming_consumer_1'' (browsedMsg (convertMessage example_message)),
        Acknowledge (consumer (example_consumer False False AwaitReceive)) m]"
    by blast
  then have three: "length (snd (startConsumerLoop_resume True
      (ReceiveSettles (Resolved example_message)) (example_consumer False False AwaitReceive))) = 3"
    by simp
  from t1 h2 h1 p three show ?thesis by blast
qed

text \<open>
  C4 as claimed says that every message a receive returns is delivered before the next
  receive is issued. With the window closed, the receive of \<open>example_streaming\<close> returns
  a message, nothing is pushed, and the loop has issued its second receive.
\<close>

theorem message_dropped_without_window_counterexample:
  "received_by 0 (trace (run [WindowClosed, Loop 0 (ReceiveSettles (Resolved example_message))]
       example_streaming)) = [example_pulsar_message] \<and>
   pushed_by 0 (trace (run [WindowClosed, Loop 0 (ReceiveSettles (Resolved example_message))]
       example_streaming)) = [] \<and>
   receives_issued_by 0 (trace (run [WindowClosed,
       Loop 0 (ReceiveSettles (Resolved example_message))] example_streaming))
     = [(0, 1000), (0, 1000)]"
  by (simp add: example_streaming_eq startConsumerLoop_resume_def receive_timeout_def
        example_message_converted loop_head_def observe_def pushed_by_def received_by_def
        receives_issued_by_def List.map_filter_def)

end
